theory Spec2Isabelle
  imports Main
begin

section \<open>Data model of \<open>src/app/api/spotify/route.ts\<close>\<close>

text \<open>
  The interfaces of the route become records. Field names carry a prefix per interface,
  since several interfaces share the names \<open>id\<close>, \<open>name\<close>, \<open>artists\<close>, \<open>images\<close>.
  JavaScript numbers that hold counts and popularities are integers here (the provider
  sends integers); an optional field is an \<open>option\<close>.
\<close>

record image =
  img_url :: string
  img_height :: int
  img_width :: int

record SpotifyArtist =
  artist_name :: string
  artist_id :: string

text \<open>The \<open>album\<close> member of \<open>SpotifyTrack\<close>: it has no \<open>total_tracks\<close>.\<close>

record SpotifyTrackAlbum =
  sta_id :: string
  sta_name :: string
  sta_release_date :: string
  sta_images :: "image list"

record SpotifyTrack =
  st_id :: string
  st_name :: string
  st_artists :: "SpotifyArtist list"
  st_popularity :: int
  st_duration_ms :: int
  st_preview_url :: "string option"
  st_album :: "SpotifyTrackAlbum option"
  st_explicit :: "bool option"

text \<open>An item of \<open>SpotifyAlbumResponse.items\<close>, and the page itself.\<close>

record AlbumTrackStub =
  stub_id :: string
  stub_name :: string
  stub_artists :: "SpotifyArtist list"

record SpotifyAlbumResponse =
  ar_items :: "AlbumTrackStub list"
  ar_next :: "string option"

text \<open>The \<open>album\<close> member of \<open>ProcessedTrack\<close>.\<close>

record ProcessedAlbum =
  pa_id :: string
  pa_name :: string
  pa_release_date :: string
  pa_total_tracks :: int
  pa_images :: "image list"

record ProcessedTrack =
  pt_id :: string
  pt_name :: string
  pt_artists :: "SpotifyArtist list"
  pt_popularity :: int
  pt_duration_ms :: int
  pt_preview_url :: "string option"
  pt_album :: "ProcessedAlbum option"
  pt_explicit :: "bool option"

record SpotifyAlbumDetails =
  ad_id :: string
  ad_name :: string
  ad_artists :: "SpotifyArtist list"
  ad_release_date :: string
  ad_total_tracks :: int
  ad_images :: "image list"

record SpotifyArtistResponse =
  ares_id :: string
  ares_name :: string
  ares_genres :: "string list"
  ares_followers_total :: int
  ares_images :: "image list"

text \<open>\<open>SpotifySearchResponse.tracks\<close>.\<close>

record SpotifySearchResponse =
  sr_items :: "SpotifyTrack list"
  sr_next :: "string option"

subsection \<open>Failures\<close>

text \<open>
  What a call of an endpoint can reject with: an axios error that carries the
  provider's response (status and, when present, \<open>data.error.message\<close>), or an axios
  error with no response.
\<close>

datatype http_failure =
    HttpFailure nat "string option"
  | NoResponse

text \<open>
  What an \<open>await\<close> can throw inside the \<open>try\<close> block of \<open>POST\<close>: the rejection of an
  endpoint call, the \<open>Error('Missing Spotify credentials')\<close> of \<open>getAccessToken\<close>, and
  the \<open>TypeError\<close> of reading \<open>.id\<close> of \<open>undefined\<close> (\<open>artists[0]\<close> of an empty array).
\<close>

datatype failure =
    Upstream http_failure
  | MissingCredentials
  | TypeError

subsection \<open>The provider\<close>

text \<open>
  The catalog provider and the process environment are parameters of the model: one
  function per endpoint the route calls, from the request's arguments to the response or
  the failure of the call. The provider answers the same request the same way for the
  duration of one lookup.
  \<^item> \<open>env_credentials\<close>: \<open>SPOTIFY_CLIENT_ID\<close> and \<open>SPOTIFY_CLIENT_SECRET\<close> (\<open>None\<close>: unset);
  \<^item> \<open>post_token\<close>: the token endpoint, given both credentials;
  \<^item> \<open>get_track tok id\<close>: \<open>GET /tracks/{id}\<close>;
  \<^item> \<open>get_album tok id\<close>: \<open>GET /albums/{id}\<close>;
  \<^item> \<open>get_album_tracks tok id off\<close>: \<open>GET /albums/{id}/tracks?limit=50\<close>, with
    \<open>&offset=\<close> when \<open>off\<close> is \<open>Some\<close>;
  \<^item> \<open>get_artist tok id\<close>: \<open>GET /artists/{id}\<close>;
  \<^item> \<open>get_search tok name off\<close>: \<open>GET /search?type=track&limit=50&offset={off}&q=artist:"{name}"\<close>.
\<close>

record provider =
  env_credentials :: "string option \<times> string option"
  post_token :: "string \<Rightarrow> string \<Rightarrow> http_failure + string"
  get_track :: "string \<Rightarrow> string \<Rightarrow> http_failure + SpotifyTrack"
  get_album :: "string \<Rightarrow> string \<Rightarrow> http_failure + SpotifyAlbumDetails"
  get_album_tracks :: "string \<Rightarrow> string \<Rightarrow> nat option \<Rightarrow> http_failure + SpotifyAlbumResponse"
  get_artist :: "string \<Rightarrow> string \<Rightarrow> http_failure + SpotifyArtistResponse"
  get_search :: "string \<Rightarrow> string \<Rightarrow> nat \<Rightarrow> http_failure + SpotifySearchResponse"

subsection \<open>JavaScript primitives the route uses\<close>

text \<open>A string or \<open>null\<close>/\<open>undefined\<close> in a condition: the empty string is falsy too.\<close>

fun truthy :: "string option \<Rightarrow> bool" where
  "truthy None = False"
| "truthy (Some s) = (s \<noteq> [])"

text \<open>The character class \<open>[a-zA-Z0-9]\<close>.\<close>

definition alnum :: "char \<Rightarrow> bool" where
  "alnum c = (let n = (of_char c :: nat) in
     (97 \<le> n \<and> n \<le> 122) \<or> (65 \<le> n \<and> n \<le> 90) \<or> (48 \<le> n \<and> n \<le> 57))"

text \<open>
  \<open>s.match(/lit([a-zA-Z0-9]+)/)\<close> for a literal \<open>lit\<close>, reduced to what the route reads
  of the match: capture group 1 of the leftmost match, \<open>None\<close> for \<open>null\<close>. The regular
  expression has no \<open>g\<close> flag, so the scan stops at the first position where the literal
  is followed by at least one character of the class, and the greedy \<open>+\<close> takes the
  whole run.
\<close>

fun url_match :: "string \<Rightarrow> string \<Rightarrow> string option" where
  "url_match lit [] = None"
| "url_match lit (c # cs) =
     (if take (length lit) (c # cs) = lit \<and> takeWhile alnum (drop (length lit) (c # cs)) \<noteq> []
      then Some (takeWhile alnum (drop (length lit) (c # cs)))
      else url_match lit cs)"

text \<open>
  \<open>Array.prototype.findIndex\<close>: the index of the first element that satisfies the
  predicate, \<open>-1\<close> when there is none.
\<close>

fun findIndex_from :: "('a \<Rightarrow> bool) \<Rightarrow> 'a list \<Rightarrow> int \<Rightarrow> int" where
  "findIndex_from p [] i = -1"
| "findIndex_from p (x # xs) i = (if p x then i else findIndex_from p xs (i + 1))"

definition findIndex :: "('a \<Rightarrow> bool) \<Rightarrow> 'a list \<Rightarrow> int" where
  "findIndex p xs = findIndex_from p xs 0"

text \<open>
  \<open>Array.prototype.sort(cmp)\<close>: a stable sort. An element is placed before the first
  element it does not have to follow (\<open>cmp x y \<le> 0\<close>), so equal elements keep their
  order.
\<close>

fun sort_insert :: "('a \<Rightarrow> 'a \<Rightarrow> int) \<Rightarrow> 'a \<Rightarrow> 'a list \<Rightarrow> 'a list" where
  "sort_insert cmp x [] = [x]"
| "sort_insert cmp x (y # ys) = (if cmp x y \<le> 0 then x # y # ys else y # sort_insert cmp x ys)"

fun js_sort :: "('a \<Rightarrow> 'a \<Rightarrow> int) \<Rightarrow> 'a list \<Rightarrow> 'a list" where
  "js_sort cmp [] = []"
| "js_sort cmp (x # xs) = sort_insert cmp x (js_sort cmp xs)"

text \<open>The comparator of both sorts of the route: \<open>(a, b) => b.popularity - a.popularity\<close>.\<close>

definition by_popularity :: "ProcessedTrack \<Rightarrow> ProcessedTrack \<Rightarrow> int" where
  "by_popularity a b = pt_popularity b - pt_popularity a"

text \<open>
  \<open>Promise.all\<close> over started calls that each end: the values in order when all succeed,
  a failure as soon as one fails. When several fail the rejection that arrives first
  wins; the model reports the one that comes first in the array.
\<close>

fun promise_all :: "(failure + 'a) list \<Rightarrow> failure + 'a list" where
  "promise_all [] = Inr []"
| "promise_all (Inl e # rs) = Inl e"
| "promise_all (Inr v # rs) = (case promise_all rs of Inl e \<Rightarrow> Inl e | Inr vs \<Rightarrow> Inr (v # vs))"

text \<open>
  \<open>Promise.all\<close> of two calls, the first of which may never end (\<open>None\<close>): the
  rejection of the second settles the result even then.
\<close>

fun promise_all2 :: "(failure + 'a) option \<Rightarrow> failure + 'b \<Rightarrow> (failure + 'a \<times> 'b) option" where
  "promise_all2 (Some (Inl e)) _ = Some (Inl e)"
| "promise_all2 _ (Inl e) = Some (Inl e)"
| "promise_all2 None (Inr _) = None"
| "promise_all2 (Some (Inr a)) (Inr b) = Some (Inr (a, b))"

section \<open>The route\<close>

subsection \<open>\<open>getAccessToken\<close>\<close>

definition getAccessToken :: "provider \<Rightarrow> failure + string" where
  "getAccessToken P =
     (case env_credentials P of
        (Some clientId, Some clientSecret) \<Rightarrow>
          (if clientId = [] \<or> clientSecret = [] then Inl MissingCredentials
           else (case post_token P clientId clientSecret of
                   Inl e \<Rightarrow> Inl (Upstream e)
                 | Inr accessToken \<Rightarrow> Inr accessToken))
      | _ \<Rightarrow> Inl MissingCredentials)"

subsection \<open>\<open>getTrackDetails\<close>\<close>

text \<open>
  The track, then its album's details when the track has an album. \<open>total_tracks\<close> is
  \<open>albumResponse?.data.total_tracks || 1\<close>: a count of \<open>0\<close> becomes \<open>1\<close>. An array is
  truthy, so \<open>images\<close> is the album response's whenever that response exists.
\<close>

definition getTrackDetails :: "provider \<Rightarrow> string \<Rightarrow> string \<Rightarrow> failure + ProcessedTrack" where
  "getTrackDetails P trackId accessToken =
     (case get_track P accessToken trackId of
        Inl e \<Rightarrow> Inl (Upstream e)
      | Inr response \<Rightarrow>
          (case st_album response of
             None \<Rightarrow>
               Inr \<lparr>pt_id = st_id response, pt_name = st_name response,
                    pt_artists = map (\<lambda>artist. \<lparr>artist_name = artist_name artist, artist_id = artist_id artist\<rparr>)
                                     (st_artists response),
                    pt_popularity = st_popularity response, pt_duration_ms = st_duration_ms response,
                    pt_preview_url = st_preview_url response, pt_album = None,
                    pt_explicit = st_explicit response\<rparr>
           | Some album \<Rightarrow>
               (case get_album P accessToken (sta_id album) of
                  Inl e \<Rightarrow> Inl (Upstream e)
                | Inr albumResponse \<Rightarrow>
                    Inr \<lparr>pt_id = st_id response, pt_name = st_name response,
                         pt_artists = map (\<lambda>artist. \<lparr>artist_name = artist_name artist, artist_id = artist_id artist\<rparr>)
                                          (st_artists response),
                         pt_popularity = st_popularity response, pt_duration_ms = st_duration_ms response,
                         pt_preview_url = st_preview_url response,
                         pt_album = Some \<lparr>pa_id = sta_id album, pa_name = sta_name album,
                                          pa_release_date = sta_release_date album,
                                          pa_total_tracks = (if ad_total_tracks albumResponse = 0 then 1
                                                             else ad_total_tracks albumResponse),
                                          pa_images = ad_images albumResponse\<rparr>,
                         pt_explicit = st_explicit response\<rparr>)))"

subsection \<open>\<open>getAlbumTracks\<close>\<close>

text \<open>
  The page loop of \<open>getAlbumTracks\<close>:
  \<^verbatim>\<open>while (response.data.next) { nextResponse = get(...offset); allTracks = [...allTracks, ...nextResponse.data.items]; offset += 50; }\<close>
  \<open>response\<close> is the first page, a constant of the enclosing function; the loop's state
  is \<open>allTracks\<close> and \<open>offset\<close>. The loop may run forever, so the model is a partial
  function: \<open>None\<close> is the value of a run that never leaves the loop.
\<close>

partial_function (option) album_page_loop ::
  "provider \<Rightarrow> string \<Rightarrow> string \<Rightarrow> SpotifyAlbumResponse \<Rightarrow> AlbumTrackStub list \<Rightarrow> nat
     \<Rightarrow> (failure + AlbumTrackStub list) option" where
  "album_page_loop P albumId accessToken response allTracks offset =
     (if truthy (ar_next response) then
        (case get_album_tracks P accessToken albumId (Some offset) of
           Inl e \<Rightarrow> Some (Inl (Upstream e))
         | Inr nextResponse \<Rightarrow>
             album_page_loop P albumId accessToken response (allTracks @ ar_items nextResponse) (offset + 50))
      else Some (Inr allTracks))"

declare album_page_loop.simps [code]

text \<open>The body of the \<open>map\<close> callback: the track's details, with the album's images.\<close>

definition album_track_details ::
  "provider \<Rightarrow> string \<Rightarrow> SpotifyAlbumDetails \<Rightarrow> AlbumTrackStub \<Rightarrow> failure + ProcessedTrack" where
  "album_track_details P accessToken albumResponse track =
     (case getTrackDetails P (stub_id track) accessToken of
        Inl e \<Rightarrow> Inl e
      | Inr trackDetails \<Rightarrow>
          Inr (trackDetails\<lparr>pt_album :=
                 (case pt_album trackDetails of
                    None \<Rightarrow> None
                  | Some album \<Rightarrow> Some (album\<lparr>pa_images := ad_images albumResponse\<rparr>))\<rparr>))"

definition getAlbumTracks :: "provider \<Rightarrow> string \<Rightarrow> string \<Rightarrow> (failure + ProcessedTrack list) option" where
  "getAlbumTracks P albumId accessToken =
     (case get_album P accessToken albumId of
        Inl e \<Rightarrow> Some (Inl (Upstream e))
      | Inr albumResponse \<Rightarrow>
          (case get_album_tracks P accessToken albumId None of
             Inl e \<Rightarrow> Some (Inl (Upstream e))
           | Inr response \<Rightarrow>
               (case album_page_loop P albumId accessToken response (ar_items response) 50 of
                  None \<Rightarrow> None
                | Some (Inl e) \<Rightarrow> Some (Inl e)
                | Some (Inr allTracks) \<Rightarrow>
                    (case promise_all (map (album_track_details P accessToken albumResponse) allTracks) of
                       Inl e \<Rightarrow> Some (Inl e)
                     | Inr tracks \<Rightarrow> Some (Inr (js_sort by_popularity tracks))))))"

subsection \<open>\<open>getArtistDetails\<close> and \<open>getArtistTopTracks\<close>\<close>

definition getArtistDetails :: "provider \<Rightarrow> string \<Rightarrow> string \<Rightarrow> failure + SpotifyArtistResponse" where
  "getArtistDetails P artistId accessToken =
     (case get_artist P accessToken artistId of
        Inl e \<Rightarrow> Inl (Upstream e)
      | Inr response \<Rightarrow> Inr response)"

text \<open>
  \<open>newTracks.filter(track => track.artists[0].id === artistId)\<close>: \<open>artists[0]\<close> of an
  empty array is \<open>undefined\<close>, and reading its \<open>id\<close> throws.
\<close>

fun filter_primary :: "string \<Rightarrow> SpotifyTrack list \<Rightarrow> failure + SpotifyTrack list" where
  "filter_primary artistId [] = Inr []"
| "filter_primary artistId (track # rest) =
     (case st_artists track of
        [] \<Rightarrow> Inl TypeError
      | first # _ \<Rightarrow>
          (case filter_primary artistId rest of
             Inl e \<Rightarrow> Inl e
           | Inr kept \<Rightarrow> Inr (if artist_id first = artistId then track # kept else kept)))"

text \<open>
  The search loop. Its state is \<open>primaryArtistTracks\<close> and \<open>offset\<close> (\<open>firstBatch\<close> is
  written and never read, and is left out). The last argument is not in the source: it
  records, in order, the offset of every search request the loop has sent, and is
  returned beside the loop's outcome.
\<close>

function search_loop ::
  "provider \<Rightarrow> string \<Rightarrow> string \<Rightarrow> string \<Rightarrow> SpotifyTrack list \<Rightarrow> nat \<Rightarrow> nat list
     \<Rightarrow> nat list \<times> (failure + SpotifyTrack list)" where
  "search_loop P artistId accessToken name primaryArtistTracks offset sent =
     (if length primaryArtistTracks < 100 \<and> offset < 200 then
        (case get_search P accessToken name offset of
           Inl e \<Rightarrow> (sent @ [offset], Inl (Upstream e))
         | Inr searchResponse \<Rightarrow>
             (if sr_items searchResponse = [] then (sent @ [offset], Inr primaryArtistTracks)
              else
                (case filter_primary artistId (sr_items searchResponse) of
                   Inl e \<Rightarrow> (sent @ [offset], Inl e)
                 | Inr newPrimaryTracks \<Rightarrow>
                     search_loop P artistId accessToken name
                       (primaryArtistTracks @ newPrimaryTracks) (offset + 50) (sent @ [offset]))))
      else (sent, Inr primaryArtistTracks))"
  by pat_completeness auto
termination
  by (relation "measure (\<lambda>(P, artistId, accessToken, name, tracks, offset, sent). 200 - offset)") auto

declare search_loop.simps [simp del]

text \<open>The \<open>map\<close> callback of the return statement; \<open>total_tracks\<close> is the literal \<open>1\<close>.\<close>

definition process_search_track :: "SpotifyTrack \<Rightarrow> ProcessedTrack" where
  "process_search_track track =
     \<lparr>pt_id = st_id track, pt_name = st_name track, pt_artists = st_artists track,
      pt_popularity = st_popularity track, pt_duration_ms = st_duration_ms track,
      pt_preview_url = st_preview_url track,
      pt_album = (case st_album track of
                    None \<Rightarrow> None
                  | Some album \<Rightarrow>
                      Some \<lparr>pa_id = sta_id album, pa_name = sta_name album,
                            pa_release_date = sta_release_date album, pa_total_tracks = 1,
                            pa_images = sta_images album\<rparr>),
      pt_explicit = st_explicit track\<rparr>"

definition getArtistTopTracks :: "provider \<Rightarrow> string \<Rightarrow> string \<Rightarrow> failure + ProcessedTrack list" where
  "getArtistTopTracks P artistId accessToken =
     (case get_artist P accessToken artistId of
        Inl e \<Rightarrow> Inl (Upstream e)
      | Inr artistResponse \<Rightarrow>
          (case snd (search_loop P artistId accessToken (ares_name artistResponse) [] 0 []) of
             Inl e \<Rightarrow> Inl e
           | Inr primaryArtistTracks \<Rightarrow>
               Inr (take 100 (js_sort by_popularity (map process_search_track primaryArtistTracks)))))"

text \<open>The offsets of the search requests one call of \<open>getArtistTopTracks\<close> sends.\<close>

definition search_offsets :: "provider \<Rightarrow> string \<Rightarrow> string \<Rightarrow> nat list" where
  "search_offsets P artistId accessToken =
     (case get_artist P accessToken artistId of
        Inl e \<Rightarrow> []
      | Inr artistResponse \<Rightarrow> fst (search_loop P artistId accessToken (ares_name artistResponse) [] 0 []))"

subsection \<open>\<open>POST\<close>\<close>

text \<open>
  The payloads of the three branches. A member whose value is \<open>undefined\<close> is left out
  of the JSON body: \<open>None\<close>.
\<close>

record TrackPayload =
  tp_track :: ProcessedTrack
  tp_albumTracks :: "ProcessedTrack list"
  tp_trackRank :: int
  tp_totalTracks :: nat
  tp_artistTopTracks :: "ProcessedTrack list option"
  tp_artistTrackRank :: "int option"

datatype lookup_result =
    ArtistResult SpotifyArtistResponse "ProcessedTrack list"
  | AlbumResult SpotifyAlbumDetails "ProcessedTrack list"
  | TrackResult TrackPayload

text \<open>\<open>NextResponse.json(result)\<close>, or \<open>NextResponse.json({error}, {status})\<close>.\<close>

datatype response =
    Json lookup_result
  | ErrorJson string nat

text \<open>
  The three \<open>match\<close> calls and the order in which the \<open>if\<close> chain of \<open>POST\<close> reads
  them: artist first, then album, then track.
\<close>

datatype kind = Artist | Album | Track

definition classify :: "string \<Rightarrow> (kind \<times> string) option" where
  "classify url =
     (let artistMatch = url_match ''artist/'' url;
          albumMatch = url_match ''album/'' url;
          trackMatch = url_match ''track/'' url
      in case artistMatch of
           Some artistId \<Rightarrow> Some (Artist, artistId)
         | None \<Rightarrow>
             (case albumMatch of
                Some albumId \<Rightarrow> Some (Album, albumId)
              | None \<Rightarrow>
                  (case trackMatch of
                     Some trackId \<Rightarrow> Some (Track, trackId)
                   | None \<Rightarrow> None)))"

text \<open>The track branch, from \<open>getTrackDetails\<close> to the payload.\<close>

definition track_branch :: "provider \<Rightarrow> string \<Rightarrow> string \<Rightarrow> (failure + response) option" where
  "track_branch P trackId accessToken =
     (case getTrackDetails P trackId accessToken of
        Inl e \<Rightarrow> Some (Inl e)
      | Inr track \<Rightarrow>
          (case pt_album track of
             None \<Rightarrow> Some (Inr (ErrorJson ''Track album information not found'' 404))
           | Some album \<Rightarrow>
               (case pt_artists track of
                  [] \<Rightarrow> Some (Inl TypeError)
                | first # _ \<Rightarrow>
                    (if artist_id first = [] then
                       Some (Inr (ErrorJson ''Artist information not found'' 404))
                     else
                       (case promise_all2 (getAlbumTracks P (pa_id album) accessToken)
                                          (getArtistTopTracks P (artist_id first) accessToken) of
                          None \<Rightarrow> None
                        | Some (Inl e) \<Rightarrow> Some (Inl e)
                        | Some (Inr (albumTracks, artistTopTracks)) \<Rightarrow>
                            (let trackRank = findIndex (\<lambda>t. pt_id t = trackId) albumTracks + 1;
                                 artistTrackRank = findIndex (\<lambda>t. pt_id t = trackId) artistTopTracks + 1
                             in Some (Inr (Json (TrackResult
                                  \<lparr>tp_track = track,
                                   tp_albumTracks = albumTracks,
                                   tp_trackRank = trackRank,
                                   tp_totalTracks = length albumTracks,
                                   tp_artistTopTracks =
                                     (if pa_total_tracks album = 1 then Some artistTopTracks else None),
                                   tp_artistTrackRank =
                                     (if pa_total_tracks album = 1 then Some artistTrackRank else None)\<rparr>)))))))))"

text \<open>
  The \<open>try\<close> block of \<open>POST\<close>, for the \<open>url\<close> member of the request body (a missing
  member and the empty string are both falsy). \<open>Inr\<close> is a response the block returns,
  \<open>Inl\<close> what it throws, \<open>None\<close> a run that never ends.
\<close>

definition POST_try :: "provider \<Rightarrow> string \<Rightarrow> (failure + response) option" where
  "POST_try P url =
     (if url = [] then Some (Inr (ErrorJson ''URL is required'' 400))
      else
        (case getAccessToken P of
           Inl e \<Rightarrow> Some (Inl e)
         | Inr accessToken \<Rightarrow>
             (case classify url of
                Some (Artist, artistId) \<Rightarrow>
                  (case promise_all2 (Some (getArtistDetails P artistId accessToken))
                                     (getArtistTopTracks P artistId accessToken) of
                     None \<Rightarrow> None
                   | Some (Inl e) \<Rightarrow> Some (Inl e)
                   | Some (Inr (artist, topTracks)) \<Rightarrow> Some (Inr (Json (ArtistResult artist topTracks))))
              | Some (Album, albumId) \<Rightarrow>
                  (case get_album P accessToken albumId of
                     Inl e \<Rightarrow> Some (Inl (Upstream e))
                   | Inr albumResponse \<Rightarrow>
                       (case getAlbumTracks P albumId accessToken of
                          None \<Rightarrow> None
                        | Some (Inl e) \<Rightarrow> Some (Inl e)
                        | Some (Inr albumTracks) \<Rightarrow>
                            Some (Inr (Json (AlbumResult
                              \<lparr>ad_id = ad_id albumResponse, ad_name = ad_name albumResponse,
                               ad_artists = ad_artists albumResponse,
                               ad_release_date = ad_release_date albumResponse,
                               ad_total_tracks = ad_total_tracks albumResponse,
                               ad_images = ad_images albumResponse\<rparr> albumTracks)))))
              | Some (Track, trackId) \<Rightarrow> track_branch P trackId accessToken
              | None \<Rightarrow>
                  Some (Inr (ErrorJson
                    ''Invalid Spotify URL. Please provide a valid artist, album, or track URL.'' 400)))))"

text \<open>
  \<open>NextResponse.json(body, {status})\<close> builds a response with a body, and the
  constructor refuses a status such a response cannot carry: it throws a \<open>RangeError\<close>
  for a status outside 200..599 and a \<open>TypeError\<close> for a null-body status (204, 205 and
  304; 101 and 103 are outside the range already).
\<close>

definition json_status_allowed :: "nat \<Rightarrow> bool" where
  "json_status_allowed status =
     (200 \<le> status \<and> status \<le> 599 \<and> status \<noteq> 204 \<and> status \<noteq> 205 \<and> status \<noteq> 304)"

text \<open>
  What a call of the handler ends in: a response, or an error thrown out of the
  \<open>catch\<close> block, with which the route itself returns no response.
\<close>

datatype outcome =
    Responded response
  | Throws

text \<open>
  The \<open>catch\<close> block: \<open>error.response?.data?.error?.message || 'Failed to fetch data'\<close>
  and \<open>error.response?.status || 500\<close>, handed to \<open>NextResponse.json\<close>.
\<close>

fun catch_response :: "failure \<Rightarrow> outcome" where
  "catch_response (Upstream (HttpFailure status message)) =
     (if json_status_allowed (if status = 0 then 500 else status) then
        Responded
          (ErrorJson (case message of
                        None \<Rightarrow> ''Failed to fetch data''
                      | Some m \<Rightarrow> (if m = [] then ''Failed to fetch data'' else m))
                     (if status = 0 then 500 else status))
      else Throws)"
| "catch_response _ = Responded (ErrorJson ''Failed to fetch data'' 500)"

definition POST :: "provider \<Rightarrow> string \<Rightarrow> outcome option" where
  "POST P url =
     (case POST_try P url of
        None \<Rightarrow> None
      | Some (Inl error) \<Rightarrow> Some (catch_response error)
      | Some (Inr res) \<Rightarrow> Some (Responded res))"

section \<open>Vocabulary of the properties\<close>

text \<open>
  The rank as the specification words it: one more than the index of the first track of
  the collection whose id is the focal id, and \<open>0\<close> when the collection has no such
  track.
\<close>

definition rank_spec :: "ProcessedTrack list \<Rightarrow> string \<Rightarrow> int \<Rightarrow> bool" where
  "rank_spec collection focalId r =
     (if list_ex (\<lambda>t. pt_id t = focalId) collection
      then 1 \<le> r \<and> nat (r - 1) < length collection
           \<and> pt_id (collection ! nat (r - 1)) = focalId
           \<and> \<not> list_ex (\<lambda>t. pt_id t = focalId) (take (nat (r - 1)) collection)
      else r = 0)"

text \<open>The artist is the first listed artist of the track.\<close>

definition is_primary :: "string \<Rightarrow> SpotifyTrack \<Rightarrow> bool" where
  "is_primary artistId track =
     (case st_artists track of [] \<Rightarrow> False | first # _ \<Rightarrow> artist_id first = artistId)"

text \<open>The items of one search page (none when the request fails).\<close>

definition page_items :: "provider \<Rightarrow> string \<Rightarrow> string \<Rightarrow> nat \<Rightarrow> SpotifyTrack list" where
  "page_items P accessToken name offset =
     (case get_search P accessToken name offset of Inl e \<Rightarrow> [] | Inr searchResponse \<Rightarrow> sr_items searchResponse)"

text \<open>
  The number of primary-artist tracks on the first \<open>k\<close> pages together: the tracks of
  those pages whose first listed artist is the artist asked for.
\<close>

definition accumulated :: "provider \<Rightarrow> string \<Rightarrow> string \<Rightarrow> string \<Rightarrow> nat \<Rightarrow> nat" where
  "accumulated P artistId accessToken name k =
     length (concat (map (\<lambda>j. filter (is_primary artistId) (page_items P accessToken name (50 * j)))
                         [0..<k]))"

section \<open>A small catalog\<close>

text \<open>
  One provider for the examples: the album \<open>AL1\<close> of three tracks with popularities
  40, 90 and 60, the single \<open>AL2\<close> with its one track \<open>S1\<close>, the album \<open>BIG\<close> whose
  first page of tracks has a \<open>next\<close> cursor, the artist \<open>A1\<close> named \<open>Ann\<close>, and one
  search page for that name with a track of another first artist on it.
\<close>

definition ex_artist :: "string \<Rightarrow> SpotifyArtist" where
  "ex_artist i = \<lparr>artist_name = (if i = ''A1'' then ''Ann'' else ''Bob''), artist_id = i\<rparr>"

definition ex_track :: "string \<Rightarrow> int \<Rightarrow> SpotifyArtist list \<Rightarrow> string \<Rightarrow> SpotifyTrack" where
  "ex_track i pop as al =
     \<lparr>st_id = i, st_name = i, st_artists = as, st_popularity = pop, st_duration_ms = 1000,
      st_preview_url = None,
      st_album = Some \<lparr>sta_id = al, sta_name = al, sta_release_date = ''2020'', sta_images = []\<rparr>,
      st_explicit = None\<rparr>"

definition ex_album :: "string \<Rightarrow> int \<Rightarrow> SpotifyAlbumDetails" where
  "ex_album i n =
     \<lparr>ad_id = i, ad_name = i, ad_artists = [ex_artist ''A1''], ad_release_date = ''2020'',
      ad_total_tracks = n, ad_images = []\<rparr>"

definition ex_stub :: "string \<Rightarrow> AlbumTrackStub" where
  "ex_stub i = \<lparr>stub_id = i, stub_name = i, stub_artists = [ex_artist ''A1'']\<rparr>"

definition not_found :: http_failure where
  "not_found = HttpFailure 404 (Some ''Not found'')"

definition ex_provider :: provider where
  "ex_provider =
     \<lparr>env_credentials = (Some ''id'', Some ''secret''),
      post_token = (\<lambda>clientId clientSecret. Inr ''tok''),
      get_track = (\<lambda>tok i.
        if i = ''Ta'' then Inr (ex_track ''Ta'' 40 [ex_artist ''A1''] ''AL1'')
        else if i = ''Tb'' then Inr (ex_track ''Tb'' 90 [ex_artist ''A1''] ''AL1'')
        else if i = ''Tc'' then Inr (ex_track ''Tc'' 60 [ex_artist ''A1''] ''AL1'')
        else if i = ''S1'' then Inr (ex_track ''S1'' 70 [ex_artist ''A1''] ''AL2'')
        else Inl not_found),
      get_album = (\<lambda>tok i.
        if i = ''AL1'' then Inr (ex_album ''AL1'' 3)
        else if i = ''AL2'' then Inr (ex_album ''AL2'' 1)
        else if i = ''BIG'' then Inr (ex_album ''BIG'' 51)
        else Inl not_found),
      get_album_tracks = (\<lambda>tok i off.
        if i = ''AL1'' then
          Inr \<lparr>ar_items = (case off of None \<Rightarrow> [ex_stub ''Ta'', ex_stub ''Tb'', ex_stub ''Tc''] | Some n \<Rightarrow> []),
               ar_next = None\<rparr>
        else if i = ''AL2'' then
          Inr \<lparr>ar_items = (case off of None \<Rightarrow> [ex_stub ''S1''] | Some n \<Rightarrow> []), ar_next = None\<rparr>
        else if i = ''BIG'' then
          (case off of
             None \<Rightarrow> Inr \<lparr>ar_items = [ex_stub ''Ta''], ar_next = Some ''/albums/BIG/tracks?offset=50&limit=50''\<rparr>
           | Some n \<Rightarrow> Inr \<lparr>ar_items = (if n = 50 then [ex_stub ''Tb''] else []), ar_next = None\<rparr>)
        else Inl not_found),
      get_artist = (\<lambda>tok i.
        if i = ''A1'' then
          Inr \<lparr>ares_id = ''A1'', ares_name = ''Ann'', ares_genres = [], ares_followers_total = 5,
               ares_images = []\<rparr>
        else Inl not_found),
      get_search = (\<lambda>tok name off.
        Inr \<lparr>sr_items =
               (if name = ''Ann'' \<and> off = 0 then
                  [ex_track ''S1'' 70 [ex_artist ''A1''] ''AL2'',
                   ex_track ''Tb'' 90 [ex_artist ''A1''] ''AL1'',
                   ex_track ''X1'' 99 [ex_artist ''B1'', ex_artist ''A1''] ''AL9'']
                else []),
             sr_next = None\<rparr>)\<rparr>"

text \<open>The same provider with the artist endpoint answering 404.\<close>

definition ex_provider_no_artist :: provider where
  "ex_provider_no_artist = ex_provider\<lparr>get_artist := (\<lambda>tok i. Inl not_found)\<rparr>"

text \<open>
  The same provider with a search that answers every page with 50 tracks of the artist
  \<open>A1\<close>.
\<close>

definition ex_provider_prolific :: provider where
  "ex_provider_prolific =
     ex_provider\<lparr>get_search := (\<lambda>tok name off.
       Inr \<lparr>sr_items = replicate 50 (ex_track ''Tb'' 90 [ex_artist ''A1''] ''AL1''),
            sr_next = Some ''more''\<rparr>)\<rparr>"


text \<open>The same provider with one more track, \<open>E1\<close>, whose list of artists is empty.\<close>

definition ex_provider_bare :: provider where
  "ex_provider_bare =
     ex_provider\<lparr>get_track := (\<lambda>tok i.
       if i = ''E1'' then Inr (ex_track ''E1'' 10 [] ''AL2'') else get_track ex_provider tok i)\<rparr>"

text \<open>The three processed tracks of \<open>AL1\<close>, the single, and the two search results kept for \<open>A1\<close>.\<close>

definition ex_processed :: "string \<Rightarrow> int \<Rightarrow> string \<Rightarrow> int \<Rightarrow> ProcessedTrack" where
  "ex_processed i pop al n =
     \<lparr>pt_id = i, pt_name = i, pt_artists = [ex_artist ''A1''], pt_popularity = pop,
      pt_duration_ms = 1000, pt_preview_url = None,
      pt_album = Some \<lparr>pa_id = al, pa_name = al, pa_release_date = ''2020'', pa_total_tracks = n,
                       pa_images = []\<rparr>,
      pt_explicit = None\<rparr>"

section \<open>Lemmas on the primitives\<close>

subsection \<open>Sorting\<close>

lemma set_sort_insert: "set (sort_insert cmp x xs) = insert x (set xs)"
  by (induction xs) auto

lemma set_js_sort: "set (js_sort cmp xs) = set xs"
  by (induction xs) (auto simp: set_sort_insert)

lemma length_sort_insert: "length (sort_insert cmp x xs) = Suc (length xs)"
  by (induction xs) auto

lemma length_js_sort: "length (js_sort cmp xs) = length xs"
  by (induction xs) (auto simp: length_sort_insert)

lemma sorted_sort_insert:
  "sorted_wrt (\<lambda>a b. pt_popularity b \<le> pt_popularity a) xs \<Longrightarrow>
   sorted_wrt (\<lambda>a b. pt_popularity b \<le> pt_popularity a) (sort_insert by_popularity x xs)"
  by (induction xs) (auto simp: set_sort_insert by_popularity_def)

lemma sorted_js_sort:
  "sorted_wrt (\<lambda>a b. pt_popularity b \<le> pt_popularity a) (js_sort by_popularity xs)"
  by (induction xs) (auto simp: sorted_sort_insert)

lemma sorted_desc_index:
  assumes srt: "sorted_wrt (\<lambda>a b. pt_popularity b \<le> pt_popularity a) ts"
    and i: "i < length ts" and j: "j < length ts"
    and gt: "pt_popularity (ts ! j) < pt_popularity (ts ! i)"
  shows "i < j"
proof (rule ccontr)
  assume "\<not> i < j"
  then consider "i = j" | "j < i" by linarith
  then show False
  proof cases
    case 1
    with gt show False by simp
  next
    case 2
    from sorted_wrt_nth_less[OF srt 2 i] gt show False by simp
  qed
qed

lemma getAlbumTracks_sorted:
  assumes "getAlbumTracks P albumId accessToken = Some (Inr ts)"
  shows "sorted_wrt (\<lambda>a b. pt_popularity b \<le> pt_popularity a) ts"
  using assms
  by (auto simp: getAlbumTracks_def sorted_js_sort split: sum.splits option.splits)

lemma getArtistTopTracks_shape:
  assumes "getArtistTopTracks P artistId accessToken = Inr ts"
  shows "\<exists>artistResponse primaryArtistTracks.
    get_artist P accessToken artistId = Inr artistResponse \<and>
    snd (search_loop P artistId accessToken (ares_name artistResponse) [] 0 []) = Inr primaryArtistTracks \<and>
    ts = take 100 (js_sort by_popularity (map process_search_track primaryArtistTracks))"
  using assms by (auto simp: getArtistTopTracks_def split: sum.splits)

lemma getArtistTopTracks_sorted:
  assumes "getArtistTopTracks P artistId accessToken = Inr ts"
  shows "sorted_wrt (\<lambda>a b. pt_popularity b \<le> pt_popularity a) ts"
  using getArtistTopTracks_shape[OF assms]
  by (auto intro: sorted_wrt_take sorted_js_sort)

subsection \<open>The page loop of \<open>getAlbumTracks\<close>\<close>

text \<open>
  The loop tests the cursor of the first page, which no iteration changes. With a
  cursor on the first page and a provider that answers every further page, no run
  returns.
\<close>

lemma album_page_loop_never_returns:
  assumes ret: "album_page_loop P albumId accessToken response allTracks offset = Some y"
    and nxt: "truthy (ar_next response)"
    and ans: "\<forall>off. \<exists>page. get_album_tracks P accessToken albumId (Some off) = Inr page"
  shows False
proof -
  define Q :: "(((((provider \<times> string) \<times> string) \<times> SpotifyAlbumResponse) \<times> AlbumTrackStub list) \<times> nat)
                 \<Rightarrow> (failure + AlbumTrackStub list) \<Rightarrow> bool"
    where "Q = (\<lambda>(((((p, a), t), r), acc), off) res.
                  \<not> (truthy (ar_next r) \<and> (\<forall>off. \<exists>page. get_album_tracks p t a (Some off) = Inr page)))"
  have "Q (((((P, albumId), accessToken), response), allTracks), offset) y"
  proof (rule album_page_loop.raw_induct[OF _ ret])
    fix f p a t r acc off res
    assume IH: "\<And>a t r acc off b res. f a t r acc off b = Some res \<Longrightarrow> Q (((((a, t), r), acc), off), b) res"
      and body: "(if truthy (ar_next r)
                  then case get_album_tracks p t a (Some off) of
                         Inl e \<Rightarrow> Some (Inl (Upstream e))
                       | Inr nextResponse \<Rightarrow> f p a t r (acc @ ar_items nextResponse) (off + 50)
                  else Some (Inr acc)) = Some res"
    show "Q (((((p, a), t), r), acc), off) res"
    proof (rule ccontr)
      assume "\<not> Q (((((p, a), t), r), acc), off) res"
      then have tr: "truthy (ar_next r)"
        and al: "\<forall>off. \<exists>page. get_album_tracks p t a (Some off) = Inr page"
        by (simp_all add: Q_def)
      from al obtain page where pg: "get_album_tracks p t a (Some off) = Inr page" by blast
      from body tr pg have "f p a t r (acc @ ar_items page) (off + 50) = Some res" by simp
      from IH[OF this] tr al show False by (auto simp: Q_def)
    qed
  qed
  with nxt ans show False by (auto simp: Q_def)
qed

lemma album_page_loop_diverges:
  assumes "truthy (ar_next response)"
    and "\<forall>off. \<exists>page. get_album_tracks P accessToken albumId (Some off) = Inr page"
  shows "album_page_loop P albumId accessToken response allTracks offset = None"
  using album_page_loop_never_returns[OF _ assms]
  by (cases "album_page_loop P albumId accessToken response allTracks offset") auto

lemma album_page_loop_exits:
  assumes "\<not> truthy (ar_next response)"
  shows "album_page_loop P albumId accessToken response allTracks offset = Some (Inr allTracks)"
  using assms by (simp add: album_page_loop.simps)

subsection \<open>\<open>findIndex\<close>\<close>

lemma findIndex_from_none:
  "\<not> list_ex p xs \<Longrightarrow> findIndex_from p xs k = -1"
  by (induction xs arbitrary: k) auto

lemma findIndex_from_first:
  "list_ex p xs \<Longrightarrow>
     \<exists>i<length xs. findIndex_from p xs k = k + int i \<and> p (xs ! i) \<and> \<not> list_ex p (take i xs)"
proof (induction xs arbitrary: k)
  case Nil
  then show ?case by simp
next
  case (Cons x xs)
  show ?case
  proof (cases "p x")
    case True
    then have "findIndex_from p (x # xs) k = k + int 0 \<and> p ((x # xs) ! 0)
        \<and> \<not> list_ex p (take 0 (x # xs))"
      by simp
    then show ?thesis by blast
  next
    case False
    with Cons.prems have "list_ex p xs" by simp
    from Cons.IH[OF this, of "k + 1"] obtain i where i: "i < length xs"
      "findIndex_from p xs (k + 1) = k + 1 + int i" "p (xs ! i)" "\<not> list_ex p (take i xs)"
      by blast
    with False have "Suc i < length (x # xs) \<and> findIndex_from p (x # xs) k = k + int (Suc i)
        \<and> p ((x # xs) ! Suc i) \<and> \<not> list_ex p (take (Suc i) (x # xs))"
      by simp
    then show ?thesis by blast
  qed
qed

lemma findIndex_rank_spec:
  "rank_spec collection focalId (findIndex (\<lambda>t. pt_id t = focalId) collection + 1)"
proof (cases "list_ex (\<lambda>t. pt_id t = focalId) collection")
  case True
  from findIndex_from_first[OF this, of 0] obtain i where
    "i < length collection" "findIndex_from (\<lambda>t. pt_id t = focalId) collection 0 = int i"
    "pt_id (collection ! i) = focalId" "\<not> list_ex (\<lambda>t. pt_id t = focalId) (take i collection)"
    by auto
  with True show ?thesis by (simp add: rank_spec_def findIndex_def)
next
  case False
  then show ?thesis by (simp add: rank_spec_def findIndex_def findIndex_from_none)
qed

text \<open>The specification's rank is a function of the collection and the focal id.\<close>

lemma rank_spec_unique:
  assumes "rank_spec collection focalId r" and "rank_spec collection focalId r'"
  shows "r = r'"
proof (cases "list_ex (\<lambda>t. pt_id t = focalId) collection")
  case False
  with assms show ?thesis by (simp add: rank_spec_def)
next
  case True
  let ?p = "\<lambda>t. pt_id t = focalId"
  from True assms have a: "1 \<le> r" "nat (r - 1) < length collection" "?p (collection ! nat (r - 1))"
      "\<not> list_ex ?p (take (nat (r - 1)) collection)"
    and b: "1 \<le> r'" "nat (r' - 1) < length collection" "?p (collection ! nat (r' - 1))"
      "\<not> list_ex ?p (take (nat (r' - 1)) collection)"
    by (simp_all add: rank_spec_def)
  have "\<not> nat (r - 1) < nat (r' - 1)"
  proof
    assume "nat (r - 1) < nat (r' - 1)"
    with a(2) have "collection ! nat (r - 1) \<in> set (take (nat (r' - 1)) collection)"
      by (auto simp: in_set_conv_nth)
    with a(3) b(4) show False by (auto simp: list_ex_iff)
  qed
  moreover have "\<not> nat (r' - 1) < nat (r - 1)"
  proof
    assume "nat (r' - 1) < nat (r - 1)"
    with b(2) have "collection ! nat (r' - 1) \<in> set (take (nat (r - 1)) collection)"
      by (auto simp: in_set_conv_nth)
    with b(3) a(4) show False by (auto simp: list_ex_iff)
  qed
  ultimately have "nat (r - 1) = nat (r' - 1)" by linarith
  with a(1) b(1) show ?thesis by linarith
qed

subsection \<open>The track branch\<close>

text \<open>What a payload of the track branch was computed from.\<close>

lemma track_branch_payload:
  assumes "track_branch P trackId accessToken = Some (Inr (Json (TrackResult r)))"
  shows "\<exists>track album first rest albumTracks artistTopTracks.
    getTrackDetails P trackId accessToken = Inr track \<and>
    pt_album track = Some album \<and>
    pt_artists track = first # rest \<and>
    artist_id first \<noteq> [] \<and>
    getAlbumTracks P (pa_id album) accessToken = Some (Inr albumTracks) \<and>
    getArtistTopTracks P (artist_id first) accessToken = Inr artistTopTracks \<and>
    r = \<lparr>tp_track = track, tp_albumTracks = albumTracks,
          tp_trackRank = findIndex (\<lambda>t. pt_id t = trackId) albumTracks + 1,
          tp_totalTracks = length albumTracks,
          tp_artistTopTracks = (if pa_total_tracks album = 1 then Some artistTopTracks else None),
          tp_artistTrackRank = (if pa_total_tracks album = 1
             then Some (findIndex (\<lambda>t. pt_id t = trackId) artistTopTracks + 1) else None)\<rparr>"
proof -
  from assms obtain track where t: "getTrackDetails P trackId accessToken = Inr track"
    by (auto simp: track_branch_def split: sum.splits)
  from assms t obtain album where a: "pt_album track = Some album"
    by (auto simp: track_branch_def split: option.splits)
  from assms t a obtain first rest where f: "pt_artists track = first # rest"
    by (auto simp: track_branch_def split: list.splits)
  from assms t a f have ne: "artist_id first \<noteq> []"
    by (auto simp: track_branch_def split: if_splits)
  from assms t a f ne obtain albumTracks artistTopTracks where
    p: "promise_all2 (getAlbumTracks P (pa_id album) accessToken)
       (getArtistTopTracks P (artist_id first) accessToken) = Some (Inr (albumTracks, artistTopTracks))"
    by (auto simp: track_branch_def split: option.splits sum.splits)
  then have g: "getAlbumTracks P (pa_id album) accessToken = Some (Inr albumTracks)"
    "getArtistTopTracks P (artist_id first) accessToken = Inr artistTopTracks"
    by (auto elim!: promise_all2.elims)
  from assms t a f ne p have "r = \<lparr>tp_track = track, tp_albumTracks = albumTracks,
          tp_trackRank = findIndex (\<lambda>t. pt_id t = trackId) albumTracks + 1,
          tp_totalTracks = length albumTracks,
          tp_artistTopTracks = (if pa_total_tracks album = 1 then Some artistTopTracks else None),
          tp_artistTrackRank = (if pa_total_tracks album = 1
             then Some (findIndex (\<lambda>t. pt_id t = trackId) artistTopTracks + 1) else None)\<rparr>"
    by (simp add: track_branch_def Let_def)
  with t a f ne g show ?thesis by blast
qed

subsection \<open>The primary-artist filter and the search loop\<close>

lemma filter_primary_kept:
  "filter_primary artistId ts = Inr kept \<Longrightarrow> kept = filter (is_primary artistId) ts"
  by (induction ts arbitrary: kept) (auto simp: is_primary_def split: list.splits sum.splits if_splits)

lemma filter_primary_throws:
  "list_ex (\<lambda>t. st_artists t = []) ts \<Longrightarrow> filter_primary artistId ts = Inl TypeError"
  by (induction ts) (auto split: list.splits sum.splits)

lemma filter_primary_total:
  "\<not> list_ex (\<lambda>t. st_artists t = []) ts \<Longrightarrow>
     filter_primary artistId ts = Inr (filter (is_primary artistId) ts)"
  by (induction ts) (auto simp: is_primary_def split: list.splits sum.splits)

lemma search_loop_primary:
  assumes "snd (search_loop P artistId accessToken name acc offset sent) = Inr res"
    and "\<forall>t\<in>set acc. is_primary artistId t"
  shows "\<forall>t\<in>set res. is_primary artistId t"
  using assms
proof (induction P artistId accessToken name acc offset sent rule: search_loop.induct)
  case (1 P artistId accessToken name acc offset sent)
  show ?case
  proof (cases "length acc < 100 \<and> offset < 200")
    case False
    with "1.prems" show ?thesis by (simp add: search_loop.simps)
  next
    case True
    note guard = this
    show ?thesis
    proof (cases "get_search P accessToken name offset")
      case (Inl e)
      with guard "1.prems" show ?thesis by (simp add: search_loop.simps)
    next
      case (Inr searchResponse)
      show ?thesis
      proof (cases "sr_items searchResponse = []")
        case True
        with guard Inr "1.prems" show ?thesis by (simp add: search_loop.simps)
      next
        case False
        show ?thesis
        proof (cases "filter_primary artistId (sr_items searchResponse)")
          case (Inl e)
          with guard Inr False "1.prems" show ?thesis by (simp add: search_loop.simps)
        next
          case inr: (Inr newPrimaryTracks)
          from guard Inr False inr "1.prems"(1)
          have "snd (search_loop P artistId accessToken name (acc @ newPrimaryTracks) (offset + 50)
                   (sent @ [offset])) = Inr res"
            by (simp add: search_loop.simps)
          moreover from filter_primary_kept[OF inr] "1.prems"(2)
          have "\<forall>t\<in>set (acc @ newPrimaryTracks). is_primary artistId t" by auto
          ultimately show ?thesis
            using "1.IH"[OF guard Inr False inr] by blast
        qed
      qed
    qed
  qed
qed

lemma top_tracks_members:
  assumes "getArtistTopTracks P artistId accessToken = Inr ts" and "t \<in> set ts"
  shows "\<exists>s. t = process_search_track s \<and> is_primary artistId s"
proof -
  from assms(1) obtain artistResponse :: SpotifyArtistResponse and primaryArtistTracks where
    l: "snd (search_loop P artistId accessToken (ares_name artistResponse) [] 0 []) = Inr primaryArtistTracks"
    and ts: "ts = take 100 (js_sort by_popularity (map process_search_track primaryArtistTracks))"
    using getArtistTopTracks_shape by blast
  from assms(2) ts have "t \<in> set (js_sort by_popularity (map process_search_track primaryArtistTracks))"
    by (auto dest: in_set_takeD)
  then obtain s where "s \<in> set primaryArtistTracks" "t = process_search_track s"
    by (auto simp: set_js_sort)
  moreover from search_loop_primary[OF l] have "\<forall>t\<in>set primaryArtistTracks. is_primary artistId t"
    by simp
  ultimately show ?thesis by blast
qed

text \<open>
  The requests of the search loop. When the loop is entered with \<open>m\<close> pages read, all
  non-empty, and with what they hold accumulated, every request it has sent and will
  send is the next multiple of 50 below 200, sent with fewer than 100 tracks accumulated
  and after non-empty pages only.
\<close>

lemma page_items_step:
  assumes "get_search P accessToken name offset = Inr searchResponse"
  shows "page_items P accessToken name offset = sr_items searchResponse"
  using assms by (simp add: page_items_def)

lemma search_trace_invariant:
  assumes "offset = 50 * m" and "length sent = m"
    and "acc = concat (map (\<lambda>j. filter (is_primary artistId) (page_items P accessToken name (50 * j)))
                           [0..<m])"
    and "\<forall>j<m. page_items P accessToken name (50 * j) \<noteq> []"
    and "\<forall>k<length sent. sent ! k = 50 * k \<and> 50 * k < 200
           \<and> accumulated P artistId accessToken name k < 100
           \<and> (\<forall>j<k. page_items P accessToken name (50 * j) \<noteq> [])"
  shows "\<forall>k<length (fst (search_loop P artistId accessToken name acc offset sent)).
           fst (search_loop P artistId accessToken name acc offset sent) ! k = 50 * k \<and> 50 * k < 200
           \<and> accumulated P artistId accessToken name k < 100
           \<and> (\<forall>j<k. page_items P accessToken name (50 * j) \<noteq> [])"
  using assms
proof (induction P artistId accessToken name acc offset sent arbitrary: m rule: search_loop.induct)
  case (1 P artistId accessToken name acc offset sent)
  let ?G = "\<lambda>s. \<forall>k<length s. s ! k = 50 * k \<and> 50 * k < 200
           \<and> accumulated P artistId accessToken name k < 100
           \<and> (\<forall>j<k. page_items P accessToken name (50 * j) \<noteq> [])"
  show ?case
  proof (cases "length acc < 100 \<and> offset < 200")
    case False
    have "search_loop P artistId accessToken name acc offset sent = (sent, Inr acc)"
      by (subst search_loop.simps) (simp only: False if_False)
    with "1.prems"(5) show ?thesis by simp
  next
    case True
    note guard = this
    have acc_m: "accumulated P artistId accessToken name m = length acc"
      using "1.prems"(3) by (simp add: accumulated_def)
    have G': "?G (sent @ [offset])"
    proof (intro allI impI)
      fix k assume "k < length (sent @ [offset])"
      then consider "k < length sent" | "k = m" using "1.prems"(2) by fastforce
      then show "(sent @ [offset]) ! k = 50 * k \<and> 50 * k < 200
           \<and> accumulated P artistId accessToken name k < 100
           \<and> (\<forall>j<k. page_items P accessToken name (50 * j) \<noteq> [])"
      proof cases
        case 1
        with "1.prems"(5) show ?thesis by (simp add: nth_append)
      next
        case 2
        with guard "1.prems"(1,2,4) acc_m show ?thesis by (simp add: nth_append)
      qed
    qed
    show ?thesis
    proof (cases "get_search P accessToken name offset")
      case (Inl e)
      with guard have "fst (search_loop P artistId accessToken name acc offset sent) = sent @ [offset]"
        by (simp add: search_loop.simps)
      with G' show ?thesis by simp
    next
      case (Inr searchResponse)
      show ?thesis
      proof (cases "sr_items searchResponse = []")
        case True
        with guard Inr have "fst (search_loop P artistId accessToken name acc offset sent) = sent @ [offset]"
          by (simp add: search_loop.simps)
        with G' show ?thesis by simp
      next
        case False
        show ?thesis
        proof (cases "filter_primary artistId (sr_items searchResponse)")
          case (Inl e)
          with guard Inr False
          have "fst (search_loop P artistId accessToken name acc offset sent) = sent @ [offset]"
            by (simp add: search_loop.simps)
          with G' show ?thesis by simp
        next
          case inr: (Inr newPrimaryTracks)
          from guard Inr False inr
          have unfold: "search_loop P artistId accessToken name acc offset sent =
                search_loop P artistId accessToken name (acc @ newPrimaryTracks) (offset + 50) (sent @ [offset])"
            by (subst search_loop.simps) simp
          have pi: "page_items P accessToken name (50 * m) = sr_items searchResponse"
            using page_items_step[OF Inr] "1.prems"(1) by simp
          have pp: "filter (is_primary artistId) (page_items P accessToken name (50 * m)) = newPrimaryTracks"
            using filter_primary_kept[OF inr] pi by simp
          have a1: "offset + 50 = 50 * Suc m" using "1.prems"(1) by simp
          have a2: "length (sent @ [offset]) = Suc m" using "1.prems"(2) by simp
          have a3: "acc @ newPrimaryTracks =
                concat (map (\<lambda>j. filter (is_primary artistId) (page_items P accessToken name (50 * j)))
                            [0..<Suc m])"
            using "1.prems"(3) pp by simp
          have a4: "\<forall>j<Suc m. page_items P accessToken name (50 * j) \<noteq> []"
            using "1.prems"(4) pi False by (auto simp: less_Suc_eq)
          from "1.IH"[OF guard Inr False inr a1 a2 a3 a4 G'] unfold
          show ?thesis by simp
        qed
      qed
    qed
  qed
qed

subsection \<open>The three matches\<close>

lemma takeWhile_id_run:
  assumes "list_all alnum tid" and "takeWhile alnum suf = []"
  shows "takeWhile alnum (tid @ suf) = tid"
  using assms by (induction tid) auto

lemma takeWhile_append_empty_iff:
  "xs \<noteq> [] \<Longrightarrow> (takeWhile p (xs @ ys) = []) = (takeWhile p xs = [])"
  by (cases xs) auto

lemma url_match_here:
  assumes "tid \<noteq> []" and "list_all alnum tid" and "takeWhile alnum suf = []"
  shows "url_match lit (lit @ tid @ suf) = Some tid"
proof -
  from assms(1) obtain c cs where cs: "lit @ tid @ suf = c # cs"
    by (cases "lit @ tid @ suf") auto
  have "take (length lit) (c # cs) = lit"
    unfolding cs[symmetric] by simp
  moreover have "takeWhile alnum (drop (length lit) (c # cs)) = tid"
    unfolding cs[symmetric] using takeWhile_id_run[OF assms(2,3)] by simp
  ultimately have "url_match lit (c # cs) = Some tid"
    using assms(1) by simp
  then show ?thesis by (simp only: cs)
qed

text \<open>
  The leftmost match: when no match starts before the literal, the match is the one at
  the literal.
\<close>

lemma url_match_first:
  assumes "url_match lit (pre @ lit) = None"
    and "tid \<noteq> []" and "list_all alnum tid" and "takeWhile alnum suf = []"
  shows "url_match lit (pre @ lit @ tid @ suf) = Some tid"
  using assms(1)
proof (induction pre)
  case Nil
  show ?case using url_match_here[OF assms(2,3,4)] by simp
next
  case (Cons c pre)
  let ?n = "length lit"
  from Cons.prems
  have no: "\<not> (take ?n (c # pre @ lit) = lit \<and> takeWhile alnum (drop ?n (c # pre @ lit)) \<noteq> [])"
    and rest: "url_match lit (pre @ lit) = None"
    by (auto split: if_splits)
  have tk: "take ?n (c # pre @ lit @ tid @ suf) = take ?n (c # pre @ lit)"
    using take_append[of ?n "c # pre @ lit" "tid @ suf"] by simp
  have dr: "drop ?n (c # pre @ lit @ tid @ suf) = drop ?n (c # pre @ lit) @ tid @ suf"
    using drop_append[of ?n "c # pre @ lit" "tid @ suf"] by simp
  have ne: "drop ?n (c # pre @ lit) \<noteq> []" by simp
  have "(takeWhile alnum (drop ?n (c # pre @ lit @ tid @ suf)) = []) =
        (takeWhile alnum (drop ?n (c # pre @ lit)) = [])"
    unfolding dr by (rule takeWhile_append_empty_iff[OF ne])
  with no tk have "\<not> (take ?n (c # pre @ lit @ tid @ suf) = lit
      \<and> takeWhile alnum (drop ?n (c # pre @ lit @ tid @ suf)) \<noteq> [])"
    by simp
  then have "url_match lit ((c # pre) @ lit @ tid @ suf) = url_match lit (pre @ lit @ tid @ suf)"
    by auto
  with Cons.IH[OF rest] show ?case by simp
qed


subsection \<open>Where a \<open>TypeError\<close> can come from\<close>

text \<open>
  Only the two reads of \<open>artists[0].id\<close> throw a \<open>TypeError\<close>; no other step of the
  route does.
\<close>

lemma getAccessToken_no_TypeError: "getAccessToken P \<noteq> Inl TypeError"
  by (auto simp: getAccessToken_def split: prod.splits option.splits sum.splits)

lemma getTrackDetails_no_TypeError: "getTrackDetails P trackId accessToken \<noteq> Inl TypeError"
  by (auto simp: getTrackDetails_def split: sum.splits option.splits)

lemma getTrackDetails_artists:
  assumes "getTrackDetails P trackId accessToken = Inr track"
  shows "\<exists>response. get_track P accessToken trackId = Inr response
           \<and> length (pt_artists track) = length (st_artists response)"
  using assms by (auto simp: getTrackDetails_def split: sum.splits option.splits)

lemma promise_all_failure:
  "promise_all rs = Inl e \<Longrightarrow> Inl e \<in> set rs"
  by (induction rs rule: promise_all.induct) (auto split: sum.splits)

lemma album_track_details_no_TypeError:
  "album_track_details P accessToken albumResponse track \<noteq> Inl TypeError"
  using getTrackDetails_no_TypeError
  by (auto simp: album_track_details_def split: sum.splits)

lemma album_page_loop_no_TypeError:
  assumes ret: "album_page_loop P albumId accessToken response allTracks offset = Some y"
  shows "y \<noteq> Inl TypeError"
proof -
  define Q :: "(((((provider \<times> string) \<times> string) \<times> SpotifyAlbumResponse) \<times> AlbumTrackStub list) \<times> nat)
                 \<Rightarrow> (failure + AlbumTrackStub list) \<Rightarrow> bool"
    where "Q = (\<lambda>args res. res \<noteq> Inl TypeError)"
  have "Q (((((P, albumId), accessToken), response), allTracks), offset) y"
  proof (rule album_page_loop.raw_induct[OF _ ret])
    fix f p a t r acc off res
    assume IH: "\<And>a t r acc off b res. f a t r acc off b = Some res \<Longrightarrow> Q (((((a, t), r), acc), off), b) res"
      and body: "(if truthy (ar_next r)
                  then case get_album_tracks p t a (Some off) of
                         Inl e \<Rightarrow> Some (Inl (Upstream e))
                       | Inr nextResponse \<Rightarrow> f p a t r (acc @ ar_items nextResponse) (off + 50)
                  else Some (Inr acc)) = Some res"
    show "Q (((((p, a), t), r), acc), off) res"
      using body IH by (auto simp: Q_def split: if_splits sum.splits)
  qed
  then show ?thesis by (simp add: Q_def)
qed

lemma getAlbumTracks_no_TypeError: "getAlbumTracks P albumId accessToken \<noteq> Some (Inl TypeError)"
proof
  assume a: "getAlbumTracks P albumId accessToken = Some (Inl TypeError)"
  then obtain albumResponse where ar: "get_album P accessToken albumId = Inr albumResponse"
    by (auto simp: getAlbumTracks_def split: sum.splits)
  from a ar obtain response where r: "get_album_tracks P accessToken albumId None = Inr response"
    by (auto simp: getAlbumTracks_def split: sum.splits)
  from a ar r obtain y where l: "album_page_loop P albumId accessToken response (ar_items response) 50 = Some y"
    by (auto simp: getAlbumTracks_def split: option.splits)
  from album_page_loop_no_TypeError[OF l] have y: "y \<noteq> Inl TypeError" .
  from a ar r l y obtain allTracks where al: "y = Inr allTracks"
    by (auto simp: getAlbumTracks_def split: sum.splits)
  from a ar r l al have "promise_all (map (album_track_details P accessToken albumResponse) allTracks) = Inl TypeError"
    by (auto simp: getAlbumTracks_def split: sum.splits)
  from promise_all_failure[OF this] obtain x where
    "album_track_details P accessToken albumResponse x = Inl TypeError"
    by auto
  with album_track_details_no_TypeError show False by blast
qed

lemma filter_primary_failure: "filter_primary artistId ts = Inl e \<Longrightarrow> list_ex (\<lambda>t. st_artists t = []) ts"
  by (induction ts) (auto split: list.splits sum.splits)

lemma search_loop_no_TypeError:
  assumes "\<forall>tok n off r. get_search P tok n off = Inr r \<longrightarrow> \<not> list_ex (\<lambda>t. st_artists t = []) (sr_items r)"
  shows "snd (search_loop P artistId accessToken name acc offset sent) \<noteq> Inl TypeError"
  using assms
proof (induction P artistId accessToken name acc offset sent rule: search_loop.induct)
  case (1 P artistId accessToken name acc offset sent)
  show ?case
  proof (cases "length acc < 100 \<and> offset < 200")
    case False
    have "search_loop P artistId accessToken name acc offset sent = (sent, Inr acc)"
      by (subst search_loop.simps) (simp only: False if_False)
    then show ?thesis by simp
  next
    case True
    note guard = this
    show ?thesis
    proof (cases "get_search P accessToken name offset")
      case (Inl e)
      with guard show ?thesis by (simp add: search_loop.simps)
    next
      case (Inr searchResponse)
      with "1.prems" have ok: "\<not> list_ex (\<lambda>t. st_artists t = []) (sr_items searchResponse)" by blast
      show ?thesis
      proof (cases "sr_items searchResponse = []")
        case True
        with guard Inr show ?thesis by (simp add: search_loop.simps)
      next
        case False
        show ?thesis
        proof (cases "filter_primary artistId (sr_items searchResponse)")
          case (Inl e)
          from filter_primary_failure[OF this] ok show ?thesis by simp
        next
          case inr: (Inr newPrimaryTracks)
          from guard Inr False inr
          have "search_loop P artistId accessToken name acc offset sent =
                search_loop P artistId accessToken name (acc @ newPrimaryTracks) (offset + 50) (sent @ [offset])"
            by (subst search_loop.simps) simp
          with "1.IH"[OF guard Inr False inr "1.prems"] show ?thesis by simp
        qed
      qed
    qed
  qed
qed

lemma getArtistTopTracks_no_TypeError:
  assumes "\<forall>tok n off r. get_search P tok n off = Inr r \<longrightarrow> \<not> list_ex (\<lambda>t. st_artists t = []) (sr_items r)"
  shows "getArtistTopTracks P artistId accessToken \<noteq> Inl TypeError"
  using search_loop_no_TypeError[OF assms]
  by (auto simp: getArtistTopTracks_def split: sum.splits)

lemma getArtistDetails_no_TypeError: "getArtistDetails P artistId accessToken \<noteq> Inl TypeError"
  by (auto simp: getArtistDetails_def split: sum.splits)

lemma promise_all2_failure:
  "promise_all2 a b = Some (Inl e) \<Longrightarrow> a = Some (Inl e) \<or> b = Inl e"
  by (induction a b rule: promise_all2.induct) auto

lemma track_branch_no_artists:
  assumes "getTrackDetails P trackId accessToken = Inr track"
    and "pt_album track = Some album" and "pt_artists track = []"
  shows "track_branch P trackId accessToken = Some (Inl TypeError)"
  using assms by (simp add: track_branch_def)

lemma track_branch_not_artist_404:
  assumes "getTrackDetails P trackId accessToken = Inr track"
    and "pt_artists track = first # rest" and "artist_id first \<noteq> []"
  shows "track_branch P trackId accessToken \<noteq> Some (Inr (ErrorJson ''Artist information not found'' 404))"
  using assms
  by (auto simp: track_branch_def Let_def split: option.splits sum.splits)

lemma track_branch_no_TypeError:
  assumes T: "\<forall>tok i t. get_track P tok i = Inr t \<longrightarrow> st_artists t \<noteq> []"
    and S: "\<forall>tok n off r. get_search P tok n off = Inr r \<longrightarrow> \<not> list_ex (\<lambda>t. st_artists t = []) (sr_items r)"
  shows "track_branch P trackId accessToken \<noteq> Some (Inl TypeError)"
proof
  assume a: "track_branch P trackId accessToken = Some (Inl TypeError)"
  then obtain track where t: "getTrackDetails P trackId accessToken = Inr track"
    using getTrackDetails_no_TypeError[of P trackId accessToken]
    by (auto simp: track_branch_def split: sum.splits)
  from getTrackDetails_artists[OF t] T have ne: "pt_artists track \<noteq> []" by auto
  from a t obtain album where al: "pt_album track = Some album"
    by (auto simp: track_branch_def split: option.splits)
  from ne obtain first rest where f: "pt_artists track = first # rest"
    by (cases "pt_artists track") auto
  from a t al f have id: "artist_id first \<noteq> []"
    by (auto simp: track_branch_def split: if_splits)
  from a t al f id have "promise_all2 (getAlbumTracks P (pa_id album) accessToken)
          (getArtistTopTracks P (artist_id first) accessToken) = Some (Inl TypeError)"
    by (auto simp: track_branch_def Let_def split: option.splits sum.splits)
  from promise_all2_failure[OF this] show False
    using getAlbumTracks_no_TypeError getArtistTopTracks_no_TypeError[OF S] by auto
qed

lemma POST_try_no_TypeError:
  assumes T: "\<forall>tok i t. get_track P tok i = Inr t \<longrightarrow> st_artists t \<noteq> []"
    and S: "\<forall>tok n off r. get_search P tok n off = Inr r \<longrightarrow> \<not> list_ex (\<lambda>t. st_artists t = []) (sr_items r)"
  shows "POST_try P url \<noteq> Some (Inl TypeError)"
proof
  assume a: "POST_try P url = Some (Inl TypeError)"
  then have u: "url \<noteq> []" by (auto simp: POST_try_def split: if_splits)
  from a u obtain accessToken where tk: "getAccessToken P = Inr accessToken"
    using getAccessToken_no_TypeError[of P]
    by (auto simp: POST_try_def split: sum.splits)
  from a u tk obtain k ident where c: "classify url = Some (k, ident)"
    by (auto simp: POST_try_def split: option.splits)
  show False
  proof (cases k)
    case Artist
    with a u tk c have "promise_all2 (Some (getArtistDetails P ident accessToken))
          (getArtistTopTracks P ident accessToken) = Some (Inl TypeError)"
      by (auto simp: POST_try_def split: option.splits sum.splits)
    from promise_all2_failure[OF this] show False
      using getArtistDetails_no_TypeError getArtistTopTracks_no_TypeError[OF S] by auto
  next
    case Album
    with a u tk c show False
      using getAlbumTracks_no_TypeError[of P ident accessToken]
      by (auto simp: POST_try_def split: option.splits sum.splits)
  next
    case Track
    with a u tk c show False
      using track_branch_no_TypeError[OF T S, of ident accessToken]
      by (auto simp: POST_try_def)
  qed
qed

subsection \<open>The example catalog, evaluated\<close>

lemma ex_album_tracks:
  "getAlbumTracks ex_provider ''AL1'' ''tok'' =
     Some (Inr [ex_processed ''Tb'' 90 ''AL1'' 3, ex_processed ''Tc'' 60 ''AL1'' 3,
                ex_processed ''Ta'' 40 ''AL1'' 3])"
  by (simp add: getAlbumTracks_def ex_provider_def album_page_loop.simps album_track_details_def
        getTrackDetails_def ex_track_def ex_album_def ex_stub_def ex_processed_def by_popularity_def
        ex_artist_def)

lemma ex_top_tracks:
  "getArtistTopTracks ex_provider ''A1'' ''tok'' =
     Inr [ex_processed ''Tb'' 90 ''AL1'' 1, ex_processed ''S1'' 70 ''AL2'' 1]"
  by (simp add: getArtistTopTracks_def ex_provider_def search_loop.simps process_search_track_def
        ex_track_def ex_processed_def by_popularity_def ex_artist_def)

lemma ex_single_tracks:
  "getAlbumTracks ex_provider ''AL2'' ''tok'' = Some (Inr [ex_processed ''S1'' 70 ''AL2'' 1])"
  by (simp add: getAlbumTracks_def ex_provider_def album_page_loop.simps album_track_details_def
        getTrackDetails_def ex_track_def ex_album_def ex_stub_def ex_processed_def by_popularity_def
        ex_artist_def)

lemma ex_token: "getAccessToken ex_provider = Inr ''tok''"
  by (simp add: getAccessToken_def ex_provider_def)


lemma ex_token_no_artist: "getAccessToken ex_provider_no_artist = Inr ''tok''"
  by (simp add: getAccessToken_def ex_provider_no_artist_def ex_provider_def)

lemma ex_track_Tc:
  "getTrackDetails ex_provider ''Tc'' ''tok'' = Inr (ex_processed ''Tc'' 60 ''AL1'' 3)"
  by (simp add: getTrackDetails_def ex_provider_def ex_track_def ex_album_def ex_processed_def
        ex_artist_def)

lemma ex_track_S1:
  "getTrackDetails ex_provider ''S1'' ''tok'' = Inr (ex_processed ''S1'' 70 ''AL2'' 1)"
  by (simp add: getTrackDetails_def ex_provider_def ex_track_def ex_album_def ex_processed_def
        ex_artist_def)

lemma ex_track_E1:
  "getTrackDetails ex_provider_bare ''E1'' ''tok'' =
     Inr ((ex_processed ''E1'' 10 ''AL2'' 1)\<lparr>pt_artists := []\<rparr>)"
  by (simp add: getTrackDetails_def ex_provider_bare_def ex_provider_def ex_track_def ex_album_def
        ex_processed_def ex_artist_def)

lemma ex_branch_S1:
  "track_branch ex_provider ''S1'' ''tok'' =
     Some (Inr (Json (TrackResult
       \<lparr>tp_track = ex_processed ''S1'' 70 ''AL2'' 1,
        tp_albumTracks = [ex_processed ''S1'' 70 ''AL2'' 1],
        tp_trackRank = 1, tp_totalTracks = 1,
        tp_artistTopTracks = Some [ex_processed ''Tb'' 90 ''AL1'' 1, ex_processed ''S1'' 70 ''AL2'' 1],
        tp_artistTrackRank = Some 2\<rparr>)))"
  by (simp add: track_branch_def ex_track_S1 ex_single_tracks ex_top_tracks ex_processed_def
        ex_artist_def findIndex_def)

lemma ex_branch_Tc:
  "track_branch ex_provider ''Tc'' ''tok'' =
     Some (Inr (Json (TrackResult
       \<lparr>tp_track = ex_processed ''Tc'' 60 ''AL1'' 3,
        tp_albumTracks = [ex_processed ''Tb'' 90 ''AL1'' 3, ex_processed ''Tc'' 60 ''AL1'' 3,
                          ex_processed ''Ta'' 40 ''AL1'' 3],
        tp_trackRank = 2, tp_totalTracks = 3,
        tp_artistTopTracks = None, tp_artistTrackRank = None\<rparr>)))"
  by (simp add: track_branch_def ex_track_Tc ex_album_tracks ex_top_tracks ex_processed_def
        ex_artist_def findIndex_def)

lemma ex_no_artist_track:
  "getTrackDetails ex_provider_no_artist ''Tc'' ''tok'' = Inr (ex_processed ''Tc'' 60 ''AL1'' 3)"
  by (simp add: getTrackDetails_def ex_provider_no_artist_def ex_provider_def ex_track_def
        ex_album_def ex_processed_def ex_artist_def)

lemma ex_no_artist_album:
  "getAlbumTracks ex_provider_no_artist ''AL1'' ''tok'' =
     Some (Inr [ex_processed ''Tb'' 90 ''AL1'' 3, ex_processed ''Tc'' 60 ''AL1'' 3,
                ex_processed ''Ta'' 40 ''AL1'' 3])"
  by (simp add: getAlbumTracks_def ex_provider_no_artist_def ex_provider_def album_page_loop.simps
        album_track_details_def getTrackDetails_def ex_track_def ex_album_def ex_stub_def
        ex_processed_def by_popularity_def ex_artist_def)

lemma ex_no_artist_top:
  "getArtistTopTracks ex_provider_no_artist ''A1'' ''tok'' = Inl (Upstream not_found)"
  by (simp add: getArtistTopTracks_def ex_provider_no_artist_def ex_provider_def)

lemma ex_no_artist_branch:
  "track_branch ex_provider_no_artist ''Tc'' ''tok'' = Some (Inl (Upstream not_found))"
  by (simp add: track_branch_def ex_no_artist_track ex_no_artist_album ex_no_artist_top
        ex_processed_def ex_artist_def)

lemma ex_classify_Tc: "classify ''https://open.spotify.com/track/Tc'' = Some (Track, ''Tc'')"
  by (simp add: classify_def alnum_def)

lemma ex_search_offsets: "search_offsets ex_provider ''A1'' ''tok'' = [0, 50]"
  by (simp add: search_offsets_def ex_provider_def search_loop.simps ex_track_def ex_artist_def)

lemma ex_accumulated: "accumulated ex_provider ''A1'' ''tok'' ''Ann'' 1 = 2"
  by (simp add: accumulated_def is_primary_def page_items_def ex_provider_def ex_track_def
        ex_artist_def)

lemma ex_prolific_artist:
  "get_artist ex_provider_prolific ''tok'' ''A1'' =
     Inr \<lparr>ares_id = ''A1'', ares_name = ''Ann'', ares_genres = [], ares_followers_total = 5,
          ares_images = []\<rparr>"
  by (simp add: ex_provider_prolific_def ex_provider_def)

lemma ex_prolific_page:
  "get_search ex_provider_prolific tok name off =
     Inr \<lparr>sr_items = replicate 50 (ex_track ''Tb'' 90 [ex_artist ''A1''] ''AL1''), sr_next = Some ''more''\<rparr>"
  by (simp add: ex_provider_prolific_def)

lemma ex_prolific_primary: "is_primary ''A1'' (ex_track ''Tb'' 90 [ex_artist ''A1''] ''AL1'')"
  by (simp add: is_primary_def ex_track_def ex_artist_def)

lemma ex_prolific_filter:
  "filter_primary ''A1'' (replicate 50 (ex_track ''Tb'' 90 [ex_artist ''A1''] ''AL1'')) =
     Inr (replicate 50 (ex_track ''Tb'' 90 [ex_artist ''A1''] ''AL1''))"
proof -
  have "\<not> list_ex (\<lambda>t. st_artists t = []) (replicate 50 (ex_track ''Tb'' 90 [ex_artist ''A1''] ''AL1''))"
    by (simp add: list_ex_iff ex_track_def)
  from filter_primary_total[OF this, of "''A1''"] show ?thesis
    by (simp add: ex_prolific_primary)
qed

lemma ex_prolific_offsets: "search_offsets ex_provider_prolific ''A1'' ''tok'' = [0, 50]"
  by (simp add: search_offsets_def ex_prolific_artist search_loop.simps ex_prolific_page
        ex_prolific_filter)

lemma ex_prolific_accumulated:
  "accumulated ex_provider_prolific ''A1'' ''tok'' ''Ann'' 1 = 50"
  "accumulated ex_provider_prolific ''A1'' ''tok'' ''Ann'' 2 = 100"
  by (simp_all add: accumulated_def page_items_def ex_prolific_page ex_prolific_primary
        numeral_2_eq_2)

lemma ex_prolific_page_items: "page_items ex_provider_prolific ''tok'' ''Ann'' 0 \<noteq> []"
  by (simp add: page_items_def ex_prolific_page)

lemma ex_artist_response:
  "get_artist ex_provider ''tok'' ''A1'' =
     Inr \<lparr>ares_id = ''A1'', ares_name = ''Ann'', ares_genres = [], ares_followers_total = 5,
          ares_images = []\<rparr>"
  by (simp add: ex_provider_def)

lemma ex_page_items: "page_items ex_provider ''tok'' ''Ann'' 0 \<noteq> []"
  by (simp add: page_items_def ex_provider_def)

lemma ex_post_no_artist:
  "POST ex_provider_no_artist ''https://open.spotify.com/track/Tc'' =
     Some (Responded (ErrorJson ''Not found'' 404))"
  by (simp add: POST_def POST_try_def ex_classify_Tc ex_token_no_artist ex_no_artist_branch not_found_def
        json_status_allowed_def)

lemma ex_post_Tc:
  "POST ex_provider ''https://open.spotify.com/track/Tc'' =
     Some (Responded (Json (TrackResult
       \<lparr>tp_track = ex_processed ''Tc'' 60 ''AL1'' 3,
        tp_albumTracks = [ex_processed ''Tb'' 90 ''AL1'' 3, ex_processed ''Tc'' 60 ''AL1'' 3,
                          ex_processed ''Ta'' 40 ''AL1'' 3],
        tp_trackRank = 2, tp_totalTracks = 3,
        tp_artistTopTracks = None, tp_artistTrackRank = None\<rparr>)))"
  by (simp add: POST_def POST_try_def ex_classify_Tc ex_token ex_branch_Tc)

lemma ex_tracks_have_artists:
  "\<forall>tok i t. get_track ex_provider tok i = Inr t \<longrightarrow> st_artists t \<noteq> []"
  by (auto simp: ex_provider_def ex_track_def split: if_splits)

lemma ex_search_has_artists:
  "\<forall>tok n off r. get_search ex_provider tok n off = Inr r
      \<longrightarrow> \<not> list_ex (\<lambda>t. st_artists t = []) (sr_items r)"
  by (auto simp: ex_provider_def ex_track_def split: if_splits)

section \<open>The claims\<close>

text \<open>
  C1. Every collection the resolvers return is sorted by descending popularity: if
  \<open>getAlbumTracks\<close> or \<open>getArtistTopTracks\<close> returns the list \<open>ts\<close> and the track at index
  \<open>i\<close> is more popular than the track at index \<open>j\<close>, then \<open>i < j\<close>.
\<close>

theorem returned_collections_sorted:
  assumes "getAlbumTracks P ident accessToken = Some (Inr ts)
           \<or> getArtistTopTracks P ident accessToken = Inr ts"
    and "i < length ts" and "j < length ts"
    and "pt_popularity (ts ! j) < pt_popularity (ts ! i)"
  shows "i < j"
proof -
  from assms(1) have "sorted_wrt (\<lambda>a b. pt_popularity b \<le> pt_popularity a) ts"
    by (auto dest: getAlbumTracks_sorted getArtistTopTracks_sorted)
  from sorted_desc_index[OF this assms(2,3,4)] show ?thesis .
qed

theorem returned_collections_sorted_witness:
  "getAlbumTracks ex_provider ''AL1'' ''tok'' =
     Some (Inr [ex_processed ''Tb'' 90 ''AL1'' 3, ex_processed ''Tc'' 60 ''AL1'' 3,
                ex_processed ''Ta'' 40 ''AL1'' 3])
   \<and> pt_popularity ([ex_processed ''Tb'' 90 ''AL1'' 3, ex_processed ''Tc'' 60 ''AL1'' 3,
                      ex_processed ''Ta'' 40 ''AL1'' 3] ! 2)
       < pt_popularity ([ex_processed ''Tb'' 90 ''AL1'' 3, ex_processed ''Tc'' 60 ''AL1'' 3,
                         ex_processed ''Ta'' 40 ''AL1'' 3] ! 0)
   \<and> (0::nat) < 2
   \<and> getArtistTopTracks ex_provider ''A1'' ''tok'' =
       Inr [ex_processed ''Tb'' 90 ''AL1'' 1, ex_processed ''S1'' 70 ''AL2'' 1]
   \<and> pt_popularity ([ex_processed ''Tb'' 90 ''AL1'' 1, ex_processed ''S1'' 70 ''AL2'' 1] ! 1)
       < pt_popularity ([ex_processed ''Tb'' 90 ''AL1'' 1, ex_processed ''S1'' 70 ''AL2'' 1] ! 0)
   \<and> (0::nat) < 1"
proof -
  let ?al = "[ex_processed ''Tb'' 90 ''AL1'' 3, ex_processed ''Tc'' 60 ''AL1'' 3,
              ex_processed ''Ta'' 40 ''AL1'' 3]"
  let ?top = "[ex_processed ''Tb'' 90 ''AL1'' 1, ex_processed ''S1'' 70 ''AL2'' 1]"
  have a: "getAlbumTracks ex_provider ''AL1'' ''tok'' = Some (Inr ?al)
           \<or> getArtistTopTracks ex_provider ''AL1'' ''tok'' = Inr ?al"
    by (simp add: ex_album_tracks)
  have pa: "pt_popularity (?al ! 2) < pt_popularity (?al ! 0)"
    by (simp add: ex_processed_def)
  have b: "getAlbumTracks ex_provider ''A1'' ''tok'' = Some (Inr ?top)
           \<or> getArtistTopTracks ex_provider ''A1'' ''tok'' = Inr ?top"
    by (simp add: ex_top_tracks)
  have pb: "pt_popularity (?top ! 1) < pt_popularity (?top ! 0)"
    by (simp add: ex_processed_def)
  have "(0::nat) < 2"
    by (rule returned_collections_sorted[OF a _ _ pa]) simp_all
  moreover have "(0::nat) < 1"
    by (rule returned_collections_sorted[OF b _ _ pb]) simp_all
  ultimately show ?thesis
    using pa pb ex_album_tracks ex_top_tracks by simp
qed

text \<open>
  C2. \<open>getAlbumTracks\<close> is meant to follow the pagination cursor until it is exhausted
  and then return. For the album \<open>BIG\<close> of the example catalog, whose first page carries
  a \<open>next\<close> cursor and whose later pages the provider all answers, the page loop has no
  exit: the call never returns.
\<close>

theorem getAlbumTracks_cursor_never_returns:
  "getAlbumTracks ex_provider ''BIG'' ''tok'' = None"
proof -
  have "album_page_loop ex_provider ''BIG'' ''tok''
          \<lparr>ar_items = [ex_stub ''Ta''], ar_next = Some ''/albums/BIG/tracks?offset=50&limit=50''\<rparr>
          [ex_stub ''Ta''] 50 = None"
    by (rule album_page_loop_diverges) (simp_all add: ex_provider_def)
  then show ?thesis
    by (simp add: getAlbumTracks_def ex_provider_def)
qed

text \<open>
  C3. The ranks of the track payload are the specification's ranks: \<open>trackRank\<close> is one
  more than the index of the first album track with the focal id, \<open>0\<close> when there is
  none; \<open>totalTracks\<close> is the length of the album's collection; and \<open>artistTrackRank\<close>,
  when the payload carries it, is the same rank within \<open>artistTopTracks\<close>.
\<close>

theorem track_ranks_are_first_index_plus_one:
  assumes "track_branch P trackId accessToken = Some (Inr (Json (TrackResult r)))"
  shows "rank_spec (tp_albumTracks r) trackId (tp_trackRank r)
         \<and> tp_totalTracks r = length (tp_albumTracks r)
         \<and> (case tp_artistTopTracks r of
              None \<Rightarrow> tp_artistTrackRank r = None
            | Some artistTopTracks \<Rightarrow>
                (case tp_artistTrackRank r of
                   None \<Rightarrow> False
                 | Some artistTrackRank \<Rightarrow> rank_spec artistTopTracks trackId artistTrackRank))"
proof -
  from track_branch_payload[OF assms] obtain album :: ProcessedAlbum
    and albumTracks artistTopTracks where
    "tp_albumTracks r = albumTracks"
    "tp_trackRank r = findIndex (\<lambda>t. pt_id t = trackId) albumTracks + 1"
    "tp_totalTracks r = length albumTracks"
    "tp_artistTopTracks r = (if pa_total_tracks album = 1 then Some artistTopTracks else None)"
    "tp_artistTrackRank r = (if pa_total_tracks album = 1
             then Some (findIndex (\<lambda>t. pt_id t = trackId) artistTopTracks + 1) else None)"
    by auto
  then show ?thesis
    by (simp add: findIndex_rank_spec)
qed

theorem track_ranks_are_first_index_plus_one_witness:
  "track_branch ex_provider ''S1'' ''tok'' =
     Some (Inr (Json (TrackResult
       \<lparr>tp_track = ex_processed ''S1'' 70 ''AL2'' 1,
        tp_albumTracks = [ex_processed ''S1'' 70 ''AL2'' 1],
        tp_trackRank = 1, tp_totalTracks = 1,
        tp_artistTopTracks = Some [ex_processed ''Tb'' 90 ''AL1'' 1, ex_processed ''S1'' 70 ''AL2'' 1],
        tp_artistTrackRank = Some 2\<rparr>)))
   \<and> rank_spec [ex_processed ''S1'' 70 ''AL2'' 1] ''S1'' 1
   \<and> rank_spec [ex_processed ''Tb'' 90 ''AL1'' 1, ex_processed ''S1'' 70 ''AL2'' 1] ''S1'' 2"
  using track_ranks_are_first_index_plus_one[OF ex_branch_S1] ex_branch_S1
  by simp

text \<open>
  C4, as the claim states it, fails. The track \<open>Tc\<close> is on an album of three tracks;
  with the artist endpoint answering 404 the lookup of \<open>Tc\<close> ends in that 404, and with
  the endpoint answering it ends in the payload: the artist's top tracks are resolved
  for a track whose album is not a single.
\<close>

theorem artist_top_tracks_only_for_singles_counterexample:
  "getTrackDetails ex_provider_no_artist ''Tc'' ''tok'' = Inr (ex_processed ''Tc'' 60 ''AL1'' 3)
   \<and> pt_album (ex_processed ''Tc'' 60 ''AL1'' 3) =
       Some \<lparr>pa_id = ''AL1'', pa_name = ''AL1'', pa_release_date = ''2020'', pa_total_tracks = 3,
             pa_images = []\<rparr>
   \<and> POST ex_provider_no_artist ''https://open.spotify.com/track/Tc'' =
       Some (Responded (ErrorJson ''Not found'' 404))
   \<and> POST ex_provider ''https://open.spotify.com/track/Tc'' =
       Some (Responded (Json (TrackResult
         \<lparr>tp_track = ex_processed ''Tc'' 60 ''AL1'' 3,
          tp_albumTracks = [ex_processed ''Tb'' 90 ''AL1'' 3, ex_processed ''Tc'' 60 ''AL1'' 3,
                            ex_processed ''Ta'' 40 ''AL1'' 3],
          tp_trackRank = 2, tp_totalTracks = 3,
          tp_artistTopTracks = None, tp_artistTrackRank = None\<rparr>)))"
  by (simp add: ex_no_artist_track ex_post_no_artist ex_post_Tc) (simp add: ex_processed_def)

text \<open>
  C4, amended. Every payload of the track branch was built after the top tracks of the
  track's first artist were resolved, whatever the album's track count; the payload
  carries \<open>artistTopTracks\<close> and \<open>artistTrackRank\<close> exactly when the \<open>total_tracks\<close> of
  the track's album is \<open>1\<close>.
\<close>

theorem artist_fields_iff_single:
  assumes "track_branch P trackId accessToken = Some (Inr (Json (TrackResult r)))"
  shows "\<exists>album first rest artistTopTracks.
           pt_album (tp_track r) = Some album
           \<and> pt_artists (tp_track r) = first # rest
           \<and> getArtistTopTracks P (artist_id first) accessToken = Inr artistTopTracks
           \<and> tp_artistTopTracks r = (if pa_total_tracks album = 1 then Some artistTopTracks else None)
           \<and> (tp_artistTopTracks r \<noteq> None) = (pa_total_tracks album = 1)
           \<and> (tp_artistTrackRank r \<noteq> None) = (pa_total_tracks album = 1)"
proof -
  from track_branch_payload[OF assms] obtain track album first rest albumTracks artistTopTracks where
    "pt_album track = Some album" "pt_artists track = first # rest"
    "getArtistTopTracks P (artist_id first) accessToken = Inr artistTopTracks"
    "r = \<lparr>tp_track = track, tp_albumTracks = albumTracks,
          tp_trackRank = findIndex (\<lambda>t. pt_id t = trackId) albumTracks + 1,
          tp_totalTracks = length albumTracks,
          tp_artistTopTracks = (if pa_total_tracks album = 1 then Some artistTopTracks else None),
          tp_artistTrackRank = (if pa_total_tracks album = 1
             then Some (findIndex (\<lambda>t. pt_id t = trackId) artistTopTracks + 1) else None)\<rparr>"
    by blast
  then show ?thesis by auto
qed

theorem artist_fields_iff_single_witness:
  "track_branch ex_provider ''S1'' ''tok'' =
     Some (Inr (Json (TrackResult
       \<lparr>tp_track = ex_processed ''S1'' 70 ''AL2'' 1,
        tp_albumTracks = [ex_processed ''S1'' 70 ''AL2'' 1],
        tp_trackRank = 1, tp_totalTracks = 1,
        tp_artistTopTracks = Some [ex_processed ''Tb'' 90 ''AL1'' 1, ex_processed ''S1'' 70 ''AL2'' 1],
        tp_artistTrackRank = Some 2\<rparr>)))
   \<and> (\<exists>album. pt_album (ex_processed ''S1'' 70 ''AL2'' 1) = Some album \<and> pa_total_tracks album = 1)"
  using artist_fields_iff_single[OF ex_branch_S1] ex_branch_S1
  by auto

text \<open>
  C5. The search requests of one call of \<open>getArtistTopTracks\<close>: the request number \<open>k\<close>
  (from \<open>0\<close>) has offset \<open>50 * k\<close>, below 200; it is sent only while the pages before it
  hold fewer than 100 tracks whose first listed artist is the artist asked for, and
  only after pages that all came back non-empty.
\<close>

theorem search_requests_bounded:
  assumes "get_artist P accessToken artistId = Inr artistResponse"
    and "k < length (search_offsets P artistId accessToken)"
  shows "search_offsets P artistId accessToken ! k = 50 * k
         \<and> search_offsets P artistId accessToken ! k < 200
         \<and> accumulated P artistId accessToken (ares_name artistResponse) k < 100
         \<and> (\<forall>j<k. page_items P accessToken (ares_name artistResponse) (50 * j) \<noteq> [])"
proof -
  have so: "search_offsets P artistId accessToken =
      fst (search_loop P artistId accessToken (ares_name artistResponse) [] 0 [])"
    using assms(1) by (simp add: search_offsets_def)
  have "\<forall>k<length (fst (search_loop P artistId accessToken (ares_name artistResponse) [] 0 [])).
           fst (search_loop P artistId accessToken (ares_name artistResponse) [] 0 []) ! k = 50 * k
           \<and> 50 * k < 200
           \<and> accumulated P artistId accessToken (ares_name artistResponse) k < 100
           \<and> (\<forall>j<k. page_items P accessToken (ares_name artistResponse) (50 * j) \<noteq> [])"
    by (rule search_trace_invariant[where m = 0]) simp_all
  with assms(2) so show ?thesis by simp
qed

theorem search_requests_bounded_witness:
  "get_artist ex_provider_prolific ''tok'' ''A1'' =
     Inr \<lparr>ares_id = ''A1'', ares_name = ''Ann'', ares_genres = [], ares_followers_total = 5,
          ares_images = []\<rparr>
   \<and> search_offsets ex_provider_prolific ''A1'' ''tok'' = [0, 50]
   \<and> (1::nat) < length (search_offsets ex_provider_prolific ''A1'' ''tok'')
   \<and> search_offsets ex_provider_prolific ''A1'' ''tok'' ! 1 < 200
   \<and> accumulated ex_provider_prolific ''A1'' ''tok'' ''Ann'' 1 = 50
   \<and> accumulated ex_provider_prolific ''A1'' ''tok'' ''Ann'' 1 < 100
   \<and> page_items ex_provider_prolific ''tok'' ''Ann'' 0 \<noteq> []
   \<and> accumulated ex_provider_prolific ''A1'' ''tok'' ''Ann'' 2 = 100"
proof -
  have k: "1 < length (search_offsets ex_provider_prolific ''A1'' ''tok'')"
    by (simp add: ex_prolific_offsets)
  from search_requests_bounded[OF ex_prolific_artist k]
  show ?thesis
    using ex_prolific_artist ex_prolific_offsets ex_prolific_accumulated by simp
qed

text \<open>
  C6. A list returned by \<open>getArtistTopTracks\<close> has at most 100 tracks, and the first
  listed artist of each of them is the artist asked for.
\<close>

theorem top_tracks_capped_and_primary:
  assumes "getArtistTopTracks P artistId accessToken = Inr ts"
  shows "length ts \<le> 100
         \<and> (\<forall>t\<in>set ts. \<exists>first rest. pt_artists t = first # rest \<and> artist_id first = artistId)"
proof
  from getArtistTopTracks_shape[OF assms] show "length ts \<le> 100"
    by auto
  show "\<forall>t\<in>set ts. \<exists>first rest. pt_artists t = first # rest \<and> artist_id first = artistId"
  proof
    fix t assume "t \<in> set ts"
    with assms obtain s where "t = process_search_track s" "is_primary artistId s"
      using top_tracks_members by blast
    then show "\<exists>first rest. pt_artists t = first # rest \<and> artist_id first = artistId"
      by (auto simp: process_search_track_def is_primary_def split: list.splits)
  qed
qed

theorem top_tracks_capped_and_primary_witness:
  "getArtistTopTracks ex_provider ''A1'' ''tok'' =
     Inr [ex_processed ''Tb'' 90 ''AL1'' 1, ex_processed ''S1'' 70 ''AL2'' 1]
   \<and> length [ex_processed ''Tb'' 90 ''AL1'' 1, ex_processed ''S1'' 70 ''AL2'' 1] \<le> 100
   \<and> (\<exists>first rest. pt_artists (ex_processed ''Tb'' 90 ''AL1'' 1) = first # rest
          \<and> artist_id first = ''A1'')"
  using top_tracks_capped_and_primary[OF ex_top_tracks] ex_top_tracks
  by simp

text \<open>
  C7, as the claim states it, fails: in a track URL whose query string holds
  \<open>album/A1\<close>, the album match comes first in the chain and the URL is classified as
  the album \<open>A1\<close>, not as the track \<open>T1\<close>.
\<close>

theorem classify_track_url_counterexample:
  "classify ''https://open.spotify.com/track/T1?from=album/A1'' = Some (Album, ''A1'')
   \<and> classify ''https://open.spotify.com/track/T1?from=album/A1'' \<noteq> Some (Track, ''T1'')"
  by (simp add: classify_def alnum_def)

text \<open>
  C7, amended. For a non-empty id of alphanumeric characters, the string
  \<open>pre @ ''track/'' @ id @ suf\<close>, where \<open>suf\<close> does not start with an alphanumeric
  character (it is empty, a slash, a query string), is classified as the track \<open>id\<close>,
  provided the string has no match of the artist pattern and none of the album pattern,
  and no match of the track pattern starts in \<open>pre\<close>.
\<close>

theorem classify_track_url:
  assumes "tid \<noteq> []" and "list_all alnum tid" and "takeWhile alnum suf = []"
    and "url_match ''artist/'' (pre @ ''track/'' @ tid @ suf) = None"
    and "url_match ''album/'' (pre @ ''track/'' @ tid @ suf) = None"
    and "url_match ''track/'' (pre @ ''track/'') = None"
  shows "classify (pre @ ''track/'' @ tid @ suf) = Some (Track, tid)"
  using assms(4,5) url_match_first[OF assms(6,1,2,3)]
  by (simp add: classify_def)

theorem classify_track_url_witness:
  "''6rqhFgbbKwnb'' \<noteq> [] \<and> list_all alnum ''6rqhFgbbKwnb'' \<and> takeWhile alnum ''/?si=abc'' = []
   \<and> url_match ''artist/'' (''https://open.spotify.com/'' @ ''track/'' @ ''6rqhFgbbKwnb'' @ ''/?si=abc'') = None
   \<and> url_match ''album/'' (''https://open.spotify.com/'' @ ''track/'' @ ''6rqhFgbbKwnb'' @ ''/?si=abc'') = None
   \<and> url_match ''track/'' (''https://open.spotify.com/'' @ ''track/'') = None
   \<and> classify ''https://open.spotify.com/track/6rqhFgbbKwnb/?si=abc'' = Some (Track, ''6rqhFgbbKwnb'')"
proof -
  have h1: "''6rqhFgbbKwnb'' \<noteq> []" by simp
  have h2: "list_all alnum ''6rqhFgbbKwnb''" by (simp add: alnum_def)
  have h3: "takeWhile alnum ''/?si=abc'' = []" by (simp add: alnum_def)
  have h4: "url_match ''artist/'' (''https://open.spotify.com/'' @ ''track/'' @ ''6rqhFgbbKwnb'' @ ''/?si=abc'') = None"
    by (simp add: alnum_def)
  have h5: "url_match ''album/'' (''https://open.spotify.com/'' @ ''track/'' @ ''6rqhFgbbKwnb'' @ ''/?si=abc'') = None"
    by (simp add: alnum_def)
  have h6: "url_match ''track/'' (''https://open.spotify.com/'' @ ''track/'') = None"
    by (simp add: alnum_def)
  from classify_track_url[OF h1 h2 h3 h4 h5 h6]
  have "classify ''https://open.spotify.com/track/6rqhFgbbKwnb/?si=abc'' = Some (Track, ''6rqhFgbbKwnb'')"
    by simp
  with h1 h2 h3 h4 h5 h6 show ?thesis by blast
qed




text \<open>
  C10. Every track that \<open>getArtistTopTracks\<close> returns with an album has \<open>1\<close> as that
  album's \<open>total_tracks\<close>, whatever the album's own count is.
\<close>

theorem top_tracks_total_tracks_is_one:
  assumes "getArtistTopTracks P artistId accessToken = Inr ts"
    and "t \<in> set ts" and "pt_album t = Some album"
  shows "pa_total_tracks album = 1"
proof -
  from assms(1,2) obtain s where "t = process_search_track s"
    using top_tracks_members by blast
  with assms(3) show ?thesis
    by (auto simp: process_search_track_def split: option.splits)
qed

theorem top_tracks_total_tracks_is_one_witness:
  "getArtistTopTracks ex_provider ''A1'' ''tok'' =
     Inr [ex_processed ''Tb'' 90 ''AL1'' 1, ex_processed ''S1'' 70 ''AL2'' 1]
   \<and> get_album ex_provider ''tok'' ''AL1'' = Inr (ex_album ''AL1'' 3)
   \<and> ad_total_tracks (ex_album ''AL1'' 3) = 3
   \<and> pt_album (ex_processed ''Tb'' 90 ''AL1'' 1) =
       Some \<lparr>pa_id = ''AL1'', pa_name = ''AL1'', pa_release_date = ''2020'', pa_total_tracks = 1,
             pa_images = []\<rparr>
   \<and> pa_total_tracks \<lparr>pa_id = ''AL1'', pa_name = ''AL1'', pa_release_date = ''2020'',
                       pa_total_tracks = 1, pa_images = []\<rparr> = 1"
proof -
  have m: "ex_processed ''Tb'' 90 ''AL1'' 1
             \<in> set [ex_processed ''Tb'' 90 ''AL1'' 1, ex_processed ''S1'' 70 ''AL2'' 1]"
    by simp
  have a: "pt_album (ex_processed ''Tb'' 90 ''AL1'' 1) =
       Some \<lparr>pa_id = ''AL1'', pa_name = ''AL1'', pa_release_date = ''2020'', pa_total_tracks = 1,
             pa_images = []\<rparr>"
    by (simp add: ex_processed_def)
  have g: "get_album ex_provider ''tok'' ''AL1'' = Inr (ex_album ''AL1'' 3)"
    by (simp add: ex_provider_def)
  have n: "ad_total_tracks (ex_album ''AL1'' 3) = 3"
    by (simp add: ex_album_def)
  from top_tracks_total_tracks_is_one[OF ex_top_tracks m a] ex_top_tracks a g n
  show ?thesis by blast
qed

text \<open>
  C9. The track branch and the primary-artist filter read \<open>artists[0].id\<close> with no
  guard for an empty list: a focal track without artists makes the track branch throw
  a \<open>TypeError\<close>, and so does one search result without artists in the filter. When
  every track the provider sends (track details and search results) has an artist,
  nothing the \<open>try\<close> block of \<open>POST\<close> throws is a \<open>TypeError\<close>; and when the first
  artist of the focal track has a non-empty id, the track branch does not answer
  \<open>Artist information not found\<close>.
\<close>

theorem first_artist_read_unguarded:
  "(getTrackDetails P trackId accessToken = Inr track \<and> pt_album track = Some album
      \<and> pt_artists track = []
      \<longrightarrow> track_branch P trackId accessToken = Some (Inl TypeError))
   \<and> (list_ex (\<lambda>t. st_artists t = []) page \<longrightarrow> filter_primary artistId page = Inl TypeError)
   \<and> ((\<forall>tok i t. get_track P tok i = Inr t \<longrightarrow> st_artists t \<noteq> [])
        \<and> (\<forall>tok n off r. get_search P tok n off = Inr r
               \<longrightarrow> \<not> list_ex (\<lambda>t. st_artists t = []) (sr_items r))
      \<longrightarrow> POST_try P url \<noteq> Some (Inl TypeError))
   \<and> (getTrackDetails P trackId accessToken = Inr track \<and> pt_artists track = first # rest
        \<and> artist_id first \<noteq> []
      \<longrightarrow> track_branch P trackId accessToken
            \<noteq> Some (Inr (ErrorJson ''Artist information not found'' 404)))"
  using track_branch_no_artists[of P trackId accessToken track album]
    filter_primary_throws[of page artistId]
    POST_try_no_TypeError[of P url]
    track_branch_not_artist_404[of P trackId accessToken track first rest]
  by blast

theorem first_artist_read_unguarded_witness:
  "getTrackDetails ex_provider_bare ''E1'' ''tok'' =
     Inr ((ex_processed ''E1'' 10 ''AL2'' 1)\<lparr>pt_artists := []\<rparr>)
   \<and> track_branch ex_provider_bare ''E1'' ''tok'' = Some (Inl TypeError)
   \<and> filter_primary ''A1'' [ex_track ''E1'' 10 [] ''AL2''] = Inl TypeError
   \<and> POST_try ex_provider ''https://open.spotify.com/track/Tc'' \<noteq> Some (Inl TypeError)
   \<and> getTrackDetails ex_provider ''Tc'' ''tok'' = Inr (ex_processed ''Tc'' 60 ''AL1'' 3)
   \<and> track_branch ex_provider ''Tc'' ''tok''
        \<noteq> Some (Inr (ErrorJson ''Artist information not found'' 404))"
proof -
  let ?bare = "(ex_processed ''E1'' 10 ''AL2'' 1)\<lparr>pt_artists := []\<rparr>"
  let ?album = "\<lparr>pa_id = ''AL2'', pa_name = ''AL2'', pa_release_date = ''2020'', pa_total_tracks = 1,
                 pa_images = []\<rparr>"
  have b1: "pt_album ?bare = Some ?album" and b2: "pt_artists ?bare = []"
    by (simp_all add: ex_processed_def)
  have c1: "track_branch ex_provider_bare ''E1'' ''tok'' = Some (Inl TypeError)"
    using first_artist_read_unguarded[of ex_provider_bare "''E1''" "''tok''" ?bare ?album]
      ex_track_E1 b1 b2 by blast
  have p: "list_ex (\<lambda>t. st_artists t = []) [ex_track ''E1'' 10 [] ''AL2'']"
    by (simp add: ex_track_def)
  have c2: "filter_primary ''A1'' [ex_track ''E1'' 10 [] ''AL2''] = Inl TypeError"
    using first_artist_read_unguarded[where page = "[ex_track ''E1'' 10 [] ''AL2'']" and artistId = "''A1''"]
      p by blast
  have c3: "POST_try ex_provider ''https://open.spotify.com/track/Tc'' \<noteq> Some (Inl TypeError)"
    using first_artist_read_unguarded[where P = ex_provider and url = "''https://open.spotify.com/track/Tc''"]
      ex_tracks_have_artists ex_search_has_artists by blast
  have d1: "pt_artists (ex_processed ''Tc'' 60 ''AL1'' 3) = ex_artist ''A1'' # []"
    and d2: "artist_id (ex_artist ''A1'') \<noteq> []"
    by (simp_all add: ex_processed_def ex_artist_def)
  have c4: "track_branch ex_provider ''Tc'' ''tok''
        \<noteq> Some (Inr (ErrorJson ''Artist information not found'' 404))"
    using first_artist_read_unguarded[of ex_provider "''Tc''" "''tok''" "ex_processed ''Tc'' 60 ''AL1'' 3"
        _ _ _ _ "ex_artist ''A1''" "[]"]
      ex_track_Tc d1 d2 by blast
  from ex_track_E1 c1 c2 c3 ex_track_Tc c4 show ?thesis by blast
qed

end
